theory Spec2Isabelle
  imports Main "HOL-Library.AList"
begin

section \<open>Python strings\<close>

text \<open>
  Source text is a Python \<open>str\<close>. A character is modelled as a HOL \<open>char\<close>, that is a
  code point in the range 0..255; the character classes below are Python's own on that range
  (\<open>str.isspace\<close>, the \<open>\\s\<close> and \<open>\\w\<close> classes of \<open>re\<close> on \<open>str\<close> patterns, \<open>str.lower\<close>).
\<close>

definition nl :: char where
  "nl = CHR 0x0A"

definition isspace :: "char \<Rightarrow> bool" where
  "isspace c \<longleftrightarrow> c \<in> set [CHR 0x09, CHR 0x0A, CHR 0x0B, CHR 0x0C, CHR 0x0D,
     CHR 0x1C, CHR 0x1D, CHR 0x1E, CHR 0x1F, CHR 0x20, CHR 0x85, CHR 0xA0]"

definition isword :: "char \<Rightarrow> bool" where
  "isword c \<longleftrightarrow> (let n = (of_char c :: nat) in
     (48 \<le> n \<and> n \<le> 57) \<or> (65 \<le> n \<and> n \<le> 90) \<or> n = 95 \<or> (97 \<le> n \<and> n \<le> 122) \<or>
     n \<in> set [170, 178, 179, 181, 185, 186, 188, 189, 190] \<or>
     (192 \<le> n \<and> n \<le> 214) \<or> (216 \<le> n \<and> n \<le> 246) \<or> (248 \<le> n \<and> n \<le> 255))"

definition lower_char :: "char \<Rightarrow> char" where
  "lower_char c = (let n = (of_char c :: nat) in
     if (65 \<le> n \<and> n \<le> 90) \<or> (192 \<le> n \<and> n \<le> 214) \<or> (216 \<le> n \<and> n \<le> 222)
     then char_of (n + 32) else c)"

definition lower :: "string \<Rightarrow> string" where
  "lower s = map lower_char s"

text \<open>\<open>s.strip()\<close>: leading and trailing whitespace removed.\<close>

definition strip :: "string \<Rightarrow> string" where
  "strip s = rev (dropWhile isspace (rev (dropWhile isspace s)))"

text \<open>\<open>s.startswith(p)\<close>.\<close>

definition startswith :: "string \<Rightarrow> string \<Rightarrow> bool" where
  "startswith s p \<longleftrightarrow> take (length p) s = p"

text \<open>\<open>sub in s\<close>: substring test.\<close>

fun contains :: "string \<Rightarrow> string \<Rightarrow> bool" where
  "contains [] sub = (sub = [])"
| "contains (c # cs) sub = (startswith (c # cs) sub \<or> contains cs sub)"

text \<open>\<open>s.split(c)\<close> for a one-character separator: never the empty list.\<close>

fun split :: "char \<Rightarrow> string \<Rightarrow> string list" where
  "split sep [] = [[]]"
| "split sep (c # cs) =
     (if c = sep then [] # split sep cs
      else (case split sep cs of
              [] \<Rightarrow> [[c]]
            | l # ls \<Rightarrow> (c # l) # ls))"

text \<open>\<open>sep.join(xs)\<close>.\<close>

fun join :: "string \<Rightarrow> string list \<Rightarrow> string" where
  "join sep [] = []"
| "join sep [x] = x"
| "join sep (x # y # ys) = x @ sep @ join sep (y # ys)"

text \<open>\<open>s.replace(a, b)\<close> for a one-character \<open>a\<close>.\<close>

definition replace :: "char \<Rightarrow> string \<Rightarrow> string \<Rightarrow> string" where
  "replace a b s = concat (map (\<lambda>c. if c = a then b else [c]) s)"

text \<open>\<open>str(n)\<close> for a non-negative integer: its decimal digits.\<close>

fun digits :: "nat \<Rightarrow> string" where
  "digits n = (if n < 10 then [char_of (48 + n)]
               else digits (n div 10) @ [char_of (48 + n mod 10)])"

declare digits.simps [simp del]

definition str_int :: "int \<Rightarrow> string" where
  "str_int i = (if i < 0 then CHR ''-'' # digits (nat (- i)) else digits (nat i))"

text \<open>\<open>enumerate(xs, start)\<close>.\<close>

fun enumerate_from :: "int \<Rightarrow> 'a list \<Rightarrow> (int \<times> 'a) list" where
  "enumerate_from n [] = []"
| "enumerate_from n (x # xs) = (n, x) # enumerate_from (n + 1) xs"

section \<open>Exceptions and list indexing\<close>

datatype py_error = IndexError | UnicodeDecodeError | OSError

text \<open>\<open>xs[j]\<close>: a negative index counts from the end, an index out of range raises.\<close>

definition getitem :: "'a list \<Rightarrow> int \<Rightarrow> py_error + 'a" where
  "getitem xs j =
     (let n = int (length xs); k = (if j < 0 then n + j else j)
      in if 0 \<le> k \<and> k < n then Inr (xs ! nat k) else Inl IndexError)"

section \<open>generate\_docs.py: the extraction engine\<close>

subsection \<open>extract\_doc\_comments\<close>

text \<open>The loop body of \<open>extract_doc_comments\<close>: one line, appended to \<open>doc_comments\<close>
  when its stripped form starts with one of the two markers.\<close>

definition doc_comment_step :: "string list \<Rightarrow> string \<Rightarrow> string list" where
  "doc_comment_step doc_comments line =
     (let stripped = strip line in
      if startswith stripped ''//!'' then doc_comments @ [strip (drop 3 stripped)]
      else if startswith stripped ''///'' then doc_comments @ [strip (drop 3 stripped)]
      else doc_comments)"

definition extract_doc_comments :: "string \<Rightarrow> string list" where
  "extract_doc_comments content = foldl doc_comment_step [] (split nl content)"

subsection \<open>The backward scan for preceding comments\<close>

text \<open>
  The test \<open>lines[j].strip().startswith('///')\<close> and the text
  \<open>lines[j].strip()[3:].strip()\<close> that the scan keeps of a line that passes it.
\<close>

definition is_item_doc :: "string \<Rightarrow> bool" where
  "is_item_doc l \<longleftrightarrow> startswith (strip l) ''///''"

definition doc_text :: "string \<Rightarrow> string" where
  "doc_text l = strip (drop 3 (strip l))"

text \<open>
  \<open>while j >= 0 and lines[j].strip().startswith('///'): doc_lines.insert(0, ...); j -= 1\<close>.
  The conjunction short-circuits: \<open>lines[j]\<close> is read only when \<open>j >= 0\<close>. Beside
  \<open>doc_lines\<close> the model returns the indices at which \<open>lines\<close> was read, in the order
  of the reads.
\<close>

function doc_scan :: "string list \<Rightarrow> int \<Rightarrow> string list \<Rightarrow> int list
    \<Rightarrow> py_error + (string list \<times> int list)" where
  "doc_scan lines j doc_lines reads =
     (if j \<ge> 0 then
        (case getitem lines j of
           Inl e \<Rightarrow> Inl e
         | Inr l \<Rightarrow>
             if is_item_doc l
             then doc_scan lines (j - 1) (doc_text l # doc_lines) (reads @ [j])
             else Inr (doc_lines, reads @ [j]))
      else Inr (doc_lines, reads))"
  by pat_completeness auto
termination
  by (relation "measure (\<lambda>(lines, j, doc_lines, reads). nat (j + 1))") auto

declare doc_scan.simps [simp del]

subsection \<open>extract\_function\_signatures\<close>

text \<open>
  \<open>re.match(r'pub fn\\s+(\\w+)\\s*\\((.*?)\\)\\s*(.*?)(?:\\{|$)', stripped)\<close>, for a
  \<open>stripped\<close> without a newline (it is a piece of \<open>content.split('\\n')\<close>), where \<open>.\<close>
  matches every character and \<open>$\<close> only the end. The greedy \<open>\\s+\<close>, \<open>\\w+\<close> and
  \<open>\\s*\<close> take their longest run (a shorter one leaves a character the next item refuses);
  the first lazy group ends at the first closing parenthesis, after which the rest of the
  pattern always matches; the second lazy group ends before the first opening brace, or at
  the end. The result is groups 1, 2 and 3.
\<close>

definition match_pub_fn :: "string \<Rightarrow> (string \<times> string \<times> string) option" where
  "match_pub_fn s =
     (if \<not> startswith s ''pub fn'' then None
      else let r1 = drop 6 s; r2 = dropWhile isspace r1 in
        if takeWhile isspace r1 = [] then None
        else let name = takeWhile isword r2; r3 = dropWhile isspace (dropWhile isword r2) in
          if name = [] then None
          else (case r3 of
                  [] \<Rightarrow> None
                | c # r4 \<Rightarrow>
                    if c \<noteq> CHR ''('' \<or> CHR '')'' \<notin> set r4 then None
                    else let params = takeWhile (\<lambda>c. c \<noteq> CHR '')'') r4;
                             r5 = drop 1 (dropWhile (\<lambda>c. c \<noteq> CHR '')'') r4);
                             r6 = dropWhile isspace r5
                         in Some (name, params, takeWhile (\<lambda>c. c \<noteq> CHR ''{'') r6)))"

record function_signature =
  name :: string
  params :: string
  return_type :: string
  documentation :: string
  line :: int

text \<open>The body of the loop over \<open>enumerate(lines)\<close>.\<close>

fun function_loop :: "string list \<Rightarrow> (int \<times> string) list \<Rightarrow> function_signature list
    \<Rightarrow> py_error + function_signature list" where
  "function_loop lines [] functions = Inr functions"
| "function_loop lines ((i, l) # rest) functions =
     (let stripped = strip l in
      if startswith stripped ''pub fn '' then
        (case match_pub_fn stripped of
           None \<Rightarrow> function_loop lines rest functions
         | Some (nm, ps, rt) \<Rightarrow>
             (case doc_scan lines (i - 1) [] [] of
                Inl e \<Rightarrow> Inl e
              | Inr (doc_lines, reads) \<Rightarrow>
                  function_loop lines rest (functions @
                    [\<lparr>name = nm, params = ps, return_type = strip rt,
                      documentation = (if doc_lines \<noteq> [] then join [nl] doc_lines else []),
                      line = i + 1\<rparr>])))
      else function_loop lines rest functions)"

definition extract_function_signatures :: "string \<Rightarrow> py_error + function_signature list" where
  "extract_function_signatures content =
     (let lines = split nl content in function_loop lines (enumerate_from 0 lines) [])"

subsection \<open>extract\_structs\_and\_enums\<close>

text \<open>
  \<open>re.match(r'pub const\\s+(\\w+)\\s*=\\s*(.*?)(?:\\{|$)', stripped)\<close>, read as
  \<open>match_pub_fn\<close> is. The result is groups 1 and 2.
\<close>

definition match_pub_const :: "string \<Rightarrow> (string \<times> string) option" where
  "match_pub_const s =
     (if \<not> startswith s ''pub const'' then None
      else let r1 = drop 9 s; r2 = dropWhile isspace r1 in
        if takeWhile isspace r1 = [] then None
        else let name = takeWhile isword r2; r3 = dropWhile isspace (dropWhile isword r2) in
          if name = [] then None
          else (case r3 of
                  [] \<Rightarrow> None
                | c # r4 \<Rightarrow>
                    if c \<noteq> CHR ''='' then None
                    else Some (name, takeWhile (\<lambda>c. c \<noteq> CHR ''{'') (dropWhile isspace r4))))"

record type_definition =
  type_name :: string
  type_body :: string
  type_documentation :: string
  type_line :: int

fun type_loop :: "string list \<Rightarrow> (int \<times> string) list \<Rightarrow> type_definition list
    \<Rightarrow> py_error + type_definition list" where
  "type_loop lines [] types = Inr types"
| "type_loop lines ((i, l) # rest) types =
     (let stripped = strip l in
      if startswith stripped ''pub const '' \<and>
         (contains stripped ''struct'' \<or> contains stripped ''union'' \<or> contains stripped ''enum'')
      then
        (case match_pub_const stripped of
           None \<Rightarrow> type_loop lines rest types
         | Some (nm, td) \<Rightarrow>
             (case doc_scan lines (i - 1) [] [] of
                Inl e \<Rightarrow> Inl e
              | Inr (doc_lines, reads) \<Rightarrow>
                  type_loop lines rest (types @
                    [\<lparr>type_name = nm, type_body = strip td,
                      type_documentation = (if doc_lines \<noteq> [] then join [nl] doc_lines else []),
                      type_line = i + 1\<rparr>])))
      else type_loop lines rest types)"

definition extract_structs_and_enums :: "string \<Rightarrow> py_error + type_definition list" where
  "extract_structs_and_enums content =
     (let lines = split nl content in type_loop lines (enumerate_from 0 lines) [])"

subsection \<open>process\_source\_file and scan\_source\_files\<close>

text \<open>
  What \<open>open(file_path, 'r', encoding='utf-8')\<close> followed by \<open>f.read()\<close> does on a
  path: it returns the text or raises.
\<close>

datatype read_result = Text string | Raises py_error

text \<open>
  An entry of \<open>src_dir.glob('**/*.zig')\<close>: \<open>str(zig_file)\<close>, the path relative to
  \<open>src_dir\<close> (the glob yields paths below \<open>src_dir\<close>, for which \<open>relative_to\<close> returns),
  \<open>zig_file.is_file()\<close> and the outcome of reading it.
\<close>

record source_file =
  path :: string
  relative_path :: string
  is_file :: bool
  contents :: read_result

record file_info =
  info_file :: string
  info_module_docs :: "string list"
  info_functions :: "function_signature list"
  info_types :: "type_definition list"

text \<open>
  The result is the returned dict (\<open>None\<close> for the empty dict \<open>{}\<close>) and the lines
  printed. Only \<open>UnicodeDecodeError\<close> is caught; any other exception leaves the function.
\<close>

definition process_source_file :: "source_file \<Rightarrow> py_error + (file_info option \<times> string list)" where
  "process_source_file file_path =
     (case contents file_path of
        Raises UnicodeDecodeError \<Rightarrow>
          Inr (None, [''Warning: Could not read '' @ path file_path @ '' as UTF-8''])
      | Raises e \<Rightarrow> Inl e
      | Text content \<Rightarrow>
          (case extract_function_signatures content of
             Inl e \<Rightarrow> Inl e
           | Inr fs \<Rightarrow>
               (case extract_structs_and_enums content of
                  Inl e \<Rightarrow> Inl e
                | Inr ts \<Rightarrow>
                    Inr (Some \<lparr>info_file = relative_path file_path,
                               info_module_docs = extract_doc_comments content,
                               info_functions = fs, info_types = ts\<rparr>, []))))"

text \<open>
  \<open>self.api_docs\<close> is a dict, which keeps its keys in insertion order: an association
  list. The state of the loop is \<open>api_docs\<close> and the lines printed so far.
\<close>

fun scan_loop :: "source_file list \<Rightarrow> (string \<times> file_info) list \<Rightarrow> string list
    \<Rightarrow> py_error + ((string \<times> file_info) list \<times> string list)" where
  "scan_loop [] api_docs printed = Inr (api_docs, printed)"
| "scan_loop (zig_file # rest) api_docs printed =
     (if is_file zig_file then
        (case process_source_file zig_file of
           Inl e \<Rightarrow> Inl e
         | Inr (None, out) \<Rightarrow> scan_loop rest api_docs (printed @ out)
         | Inr (Some fi, out) \<Rightarrow>
             scan_loop rest (AList.update (path zig_file) fi api_docs) (printed @ out))
      else scan_loop rest api_docs printed)"

definition scan_source_files :: "source_file list \<Rightarrow> py_error + ((string \<times> file_info) list \<times> string list)" where
  "scan_source_files glob = scan_loop glob [] []"

subsection \<open>generate\_api\_reference\<close>

definition module_doc_step :: "string \<Rightarrow> string \<Rightarrow> string" where
  "module_doc_step markdown doc = (if doc \<noteq> [] then markdown @ doc @ [nl, nl] else markdown)"

definition type_step :: "string \<Rightarrow> type_definition \<Rightarrow> string" where
  "type_step markdown type_info =
     (let markdown = markdown @ ''#### `'' @ type_name type_info @ ''`'' @ [nl, nl];
          markdown = (if type_documentation type_info \<noteq> []
                      then markdown @ type_documentation type_info @ [nl, nl] else markdown)
      in markdown @ ''```zig'' @ [nl] @ type_body type_info @ [nl] @ ''```'' @ [nl, nl])"

definition function_step :: "string \<Rightarrow> function_signature \<Rightarrow> string" where
  "function_step markdown func =
     (let markdown = markdown @ ''#### `'' @ name func @ ''`'' @ [nl, nl];
          markdown = (if documentation func \<noteq> []
                      then markdown @ documentation func @ [nl, nl] else markdown);
          signature = ''pub fn '' @ name func @ ''('' @ params func @ '')'';
          signature = (if return_type func \<noteq> []
                       then signature @ '' '' @ return_type func else signature)
      in markdown @ ''```zig'' @ [nl] @ signature @ [nl] @ ''```'' @ [nl, nl])"

definition file_step :: "string \<Rightarrow> file_info \<Rightarrow> string" where
  "file_step markdown fi =
     (if \<not> (info_module_docs fi \<noteq> [] \<or> info_functions fi \<noteq> [] \<or> info_types fi \<noteq> []) then markdown
      else
        let markdown = markdown @ ''## '' @ info_file fi @ [nl, nl];
            markdown = (if info_module_docs fi \<noteq> []
                        then foldl module_doc_step
                               (markdown @ ''### Module Documentation'' @ [nl, nl]) (info_module_docs fi)
                        else markdown);
            markdown = (if info_types fi \<noteq> []
                        then foldl type_step (markdown @ ''### Types'' @ [nl, nl]) (info_types fi)
                        else markdown);
            markdown = (if info_functions fi \<noteq> []
                        then foldl function_step (markdown @ ''### Functions'' @ [nl, nl]) (info_functions fi)
                        else markdown)
        in markdown @ ''---'' @ [nl, nl])"

definition api_reference_header :: string where
  "api_reference_header = ''# API Reference'' @ [nl, nl] @
     ''This is the complete API reference for zctor, automatically generated from source code.'' @
     [nl, nl]"

text \<open>\<open>for file_info in self.api_docs.values()\<close>: the values, in insertion order.\<close>

definition generate_api_reference :: "(string \<times> file_info) list \<Rightarrow> string" where
  "generate_api_reference api_docs = foldl file_step api_reference_header (map snd api_docs)"

section \<open>generate\_book.py: the chapter assembler\<close>

text \<open>
  The state of a path \<open>docs_dir / filename\<close>: \<open>exists()\<close> is false, or the file is there
  and reading it returns its text, or it is there and \<open>open\<close> or \<open>read\<close> raises.
\<close>

datatype chapter_file = Missing | Readable string | Unreadable py_error

text \<open>The registry \<open>self.chapters\<close> as the constructor sets it.\<close>

definition chapters :: "(string \<times> string) list" where
  "chapters =
     [(''README.md'', ''Introduction to the Documentation''),
      (''01-introduction.md'', ''Introduction''),
      (''02-installation.md'', ''Installation''),
      (''03-quick-start.md'', ''Quick Start''),
      (''04-architecture.md'', ''Architecture''),
      (''05-api-reference.md'', ''API Reference''),
      (''06-examples.md'', ''Examples''),
      (''07-best-practices.md'', ''Best Practices''),
      (''08-advanced-topics.md'', ''Advanced Topics''),
      (''09-contributing.md'', ''Contributing''),
      (''10-appendix.md'', ''Appendix'')]"

text \<open>The book header; \<open>timestamp\<close> is \<open>datetime.now().strftime(...)\<close>.\<close>

definition book_header :: "string \<Rightarrow> string" where
  "book_header timestamp =
     ''# zctor Documentation Book'' @ [nl, nl] @
     ''A comprehensive guide to the zctor actor framework for Zig.'' @ [nl, nl] @
     ''*Generated on '' @ timestamp @ ''*'' @ [nl, nl] @
     ''---'' @ [nl, nl]"

definition toc_step :: "string \<Rightarrow> int \<times> string \<times> string \<Rightarrow> string" where
  "toc_step f e =
     (case e of (i, filename, title) \<Rightarrow>
        f @ str_int i @ ''. ['' @ title @ ''](#'' @
        replace CHR '')'' [] (replace CHR ''('' [] (replace CHR '' '' ''-'' (lower title))) @
        '')'' @ [nl])"

text \<open>
  \<open>lines = content.split('\\n')\<close>, then \<open>'\\n'.join(lines[1:])\<close> when
  \<open>lines and lines[0].startswith('#')\<close>.
\<close>

definition skip_first_header :: "string \<Rightarrow> string" where
  "skip_first_header content =
     (let lines = split nl content in
      if lines \<noteq> [] \<and> startswith (hd lines) ''#'' then join [nl] (tl lines) else content)"

text \<open>
  The loop over the chapters: \<open>f\<close> is the text written to the output file so far. An
  exception raised while a chapter is read leaves the loop.
\<close>

fun chapter_loop :: "(string \<Rightarrow> chapter_file) \<Rightarrow> (int \<times> string \<times> string) list \<Rightarrow> string
    \<Rightarrow> py_error + string" where
  "chapter_loop docs_dir [] f = Inr f"
| "chapter_loop docs_dir ((i, filename, title) # rest) f =
     (case docs_dir filename of
        Missing \<Rightarrow>
          chapter_loop docs_dir rest
            (f @ ''# '' @ str_int i @ ''. '' @ title @ [nl, nl] @
             ''*Chapter not found: '' @ filename @ ''*'' @ [nl, nl] @ ''---'' @ [nl, nl])
      | Unreadable e \<Rightarrow> Inl e
      | Readable content \<Rightarrow>
          (let f = f @ ''# '' @ str_int i @ ''. '' @ title @ [nl, nl];
               f = f @ skip_first_header content
           in chapter_loop docs_dir rest (f @ [nl, nl] @ ''---'' @ [nl, nl])))"

definition generate_combined_markdown ::
    "string \<Rightarrow> (string \<Rightarrow> chapter_file) \<Rightarrow> (string \<times> string) list \<Rightarrow> py_error + string" where
  "generate_combined_markdown timestamp docs_dir chs =
     (let f = book_header timestamp;
          f = f @ ''## Table of Contents'' @ [nl, nl];
          f = foldl toc_step f (enumerate_from 1 chs);
          f = f @ [nl] @ ''---'' @ [nl, nl]
      in chapter_loop docs_dir (enumerate_from 1 chs) f)"

section \<open>Notions used to state the properties\<close>

text \<open>
  The maximal run of item-doc lines that ends immediately before line index \<open>i\<close>:
  the longest suffix of \<open>lines[0:i]\<close> whose lines all pass \<open>is_item_doc\<close>.
\<close>

definition doc_run :: "string list \<Rightarrow> nat \<Rightarrow> string list" where
  "doc_run lines i = rev (takeWhile is_item_doc (rev (take i lines)))"

text \<open>
  The data model of the specification holds a declaration's documentation as a sequence of
  lines; the code holds one string, the lines joined by newlines, and reads the empty string
  as no documentation (\<open>if func['documentation']\<close>). The sequence a stored string stands for:
\<close>

definition documentation_entries :: "string \<Rightarrow> string list" where
  "documentation_entries d = (if d = [] then [] else split nl d)"

text \<open>
  What a stored documentation \<open>d\<close> of a declaration on line \<open>ln\<close> (counted from 1) is:
  the join of the run above the line; its entries are the lines of the run unless the run is
  a single line without text; a line directly above that is no item-doc line leaves it empty.
\<close>

definition documented_by_run :: "string list \<Rightarrow> int \<Rightarrow> string \<Rightarrow> bool" where
  "documented_by_run lines ln d \<longleftrightarrow>
     1 \<le> ln \<and> ln \<le> int (length lines) \<and>
     (let i = nat (ln - 1); run = doc_run lines i in
        d = join [nl] (map doc_text run) \<and>
        (map doc_text run \<noteq> [[]] \<longrightarrow> documentation_entries d = map doc_text run) \<and>
        (0 < i \<and> \<not> is_item_doc (lines ! (i - 1)) \<longrightarrow> d = []))"

text \<open>The record that one step of the loop of \<open>extract_function_signatures\<close> adds, if any.\<close>

definition function_at :: "string list \<Rightarrow> int \<times> string \<Rightarrow> function_signature option" where
  "function_at lines e =
     (case e of (i, l) \<Rightarrow>
        if startswith (strip l) ''pub fn '' then
          (case match_pub_fn (strip l) of
             None \<Rightarrow> None
           | Some (nm, ps, rt) \<Rightarrow>
               Some \<lparr>name = nm, params = ps, return_type = strip rt,
                     documentation = join [nl] (map doc_text (doc_run lines (nat i))),
                     line = i + 1\<rparr>)
        else None)"

text \<open>The record that one step of the loop of \<open>extract_structs_and_enums\<close> adds, if any.\<close>

definition type_at :: "string list \<Rightarrow> int \<times> string \<Rightarrow> type_definition option" where
  "type_at lines e =
     (case e of (i, l) \<Rightarrow>
        if startswith (strip l) ''pub const '' \<and>
           (contains (strip l) ''struct'' \<or> contains (strip l) ''union'' \<or>
            contains (strip l) ''enum'')
        then
          (case match_pub_const (strip l) of
             None \<Rightarrow> None
           | Some (nm, td) \<Rightarrow>
               Some \<lparr>type_name = nm, type_body = strip td,
                     type_documentation = join [nl] (map doc_text (doc_run lines (nat i))),
                     type_line = i + 1\<rparr>)
        else None)"

text \<open>A line that \<open>extract_doc_comments\<close> keeps.\<close>

definition is_doc_comment :: "string \<Rightarrow> bool" where
  "is_doc_comment l \<longleftrightarrow> startswith (strip l) ''//!'' \<or> startswith (strip l) ''///''"

text \<open>
  The specification's reading of the stored value, applied to the trimmed line: the marker
  and one following space, if there is one, removed and nothing else.
\<close>

definition spec_marker_removed :: "string \<Rightarrow> string" where
  "spec_marker_removed stripped =
     (if startswith (drop 3 stripped) '' '' then drop 4 stripped else drop 3 stripped)"

text \<open>
  The specification's reading of the whole extractor: the kept lines, each trimmed and with
  the marker and one space removed.
\<close>

definition spec_doc_comments :: "string \<Rightarrow> string list" where
  "spec_doc_comments content =
     map (\<lambda>l. spec_marker_removed (strip l)) (filter is_doc_comment (split nl content))"



text \<open>
  The files of a batch by what reading them does: regular files whose text decodes, regular
  files that raise \<open>UnicodeDecodeError\<close>, and regular files that raise something that
  \<open>process_source_file\<close> does not catch.
\<close>

definition is_readable :: "source_file \<Rightarrow> bool" where
  "is_readable sf \<longleftrightarrow> is_file sf \<and> (case contents sf of Text c \<Rightarrow> True | Raises e \<Rightarrow> False)"

definition is_undecodable :: "source_file \<Rightarrow> bool" where
  "is_undecodable sf \<longleftrightarrow> is_file sf \<and> contents sf = Raises UnicodeDecodeError"

definition raises_uncaught :: "source_file \<Rightarrow> bool" where
  "raises_uncaught sf \<longleftrightarrow>
     is_file sf \<and> (case contents sf of Text c \<Rightarrow> False | Raises e \<Rightarrow> e \<noteq> UnicodeDecodeError)"

text \<open>The warning printed for a file that does not decode.\<close>

definition decode_warning :: "source_file \<Rightarrow> string" where
  "decode_warning sf = ''Warning: Could not read '' @ path sf @ '' as UTF-8''"

text \<open>
  An entry of \<open>api_docs\<close> that belongs to a file: its key is the file's path and its value
  the record that \<open>process_source_file\<close> returns for the file.
\<close>

definition stored_for :: "string \<times> file_info \<Rightarrow> source_file \<Rightarrow> bool" where
  "stored_for entry sf \<longleftrightarrow>
     fst entry = path sf \<and> process_source_file sf = Inr (Some (snd entry), [])"

text \<open>
  The parts of the book: what is written before the loop over the chapters (header and table
  of contents), the text between the heading of a chapter's section and its separator, and
  the section of one registry entry.
\<close>

definition book_front :: "string \<Rightarrow> (string \<times> string) list \<Rightarrow> string" where
  "book_front timestamp chs =
     foldl toc_step (book_header timestamp @ ''## Table of Contents'' @ [nl, nl])
       (enumerate_from 1 chs) @ [nl] @ ''---'' @ [nl, nl]"

fun chapter_body :: "string \<Rightarrow> chapter_file \<Rightarrow> string" where
  "chapter_body filename Missing = ''*Chapter not found: '' @ filename @ ''*''"
| "chapter_body filename (Readable content) = skip_first_header content"
| "chapter_body filename (Unreadable e) = []"

definition chapter_section :: "(string \<Rightarrow> chapter_file) \<Rightarrow> int \<times> string \<times> string \<Rightarrow> string" where
  "chapter_section docs_dir e =
     (case e of (i, filename, title) \<Rightarrow>
        ''# '' @ str_int i @ ''. '' @ title @ [nl, nl] @
        chapter_body filename (docs_dir filename) @ [nl, nl] @ ''---'' @ [nl, nl])"

definition is_unreadable :: "chapter_file \<Rightarrow> bool" where
  "is_unreadable cf = (case cf of Unreadable e \<Rightarrow> True | _ \<Rightarrow> False)"

section \<open>Concrete inputs\<close>

text \<open>A source with a documented function and an undocumented type, and its record.\<close>

definition example_source :: string where
  "example_source = ''/// a'' @ [nl] @ ''  /// b'' @ [nl] @ ''pub fn f() void {'' @ [nl] @ [nl] @
     ''pub const T = struct {''"

definition example_file :: source_file where
  "example_file = \<lparr>path = ''src/a.zig'', relative_path = ''a.zig'', is_file = True,
     contents = Text example_source\<rparr>"

definition example_info :: file_info where
  "example_info =
     \<lparr>info_file = ''a.zig'', info_module_docs = [''a'', ''b''],
      info_functions = [\<lparr>name = ''f'', params = [], return_type = ''void'',
                         documentation = ''a'' @ [nl] @ ''b'', line = 3\<rparr>],
      info_types = [\<lparr>type_name = ''T'', type_body = ''struct'',
                     type_documentation = [], type_line = 5\<rparr>]\<rparr>"



text \<open>A declaration on the first line, with an item-doc line at the end of the file.\<close>

definition first_line_source :: string where
  "first_line_source = ''pub fn f() void {'' @ [nl] @ ''/// trailing''"

text \<open>A source with two documentation comments, and one with none.\<close>

definition comment_source :: string where
  "comment_source = ''///  x'' @ [nl] @ ''const y = 1;'' @ [nl] @ ''  //! mod''"

definition plain_source :: string where
  "plain_source = ''const y = 1;'' @ [nl] @ ''// note''"

text \<open>
  A batch with a file that does not decode, a directory and a readable file; and a batch
  whose first file cannot be read at all.
\<close>

definition batch :: "source_file list" where
  "batch =
     [\<lparr>path = ''src/bad.zig'', relative_path = ''bad.zig'', is_file = True,
        contents = Raises UnicodeDecodeError\<rparr>,
      \<lparr>path = ''src/dir.zig'', relative_path = ''dir.zig'', is_file = False,
        contents = Raises OSError\<rparr>,
      \<lparr>path = ''src/a.zig'', relative_path = ''a.zig'', is_file = True,
        contents = Text example_source\<rparr>]"

definition failing_batch :: "source_file list" where
  "failing_batch =
     [\<lparr>path = ''src/locked.zig'', relative_path = ''locked.zig'', is_file = True,
        contents = Raises OSError\<rparr>,
      \<lparr>path = ''src/a.zig'', relative_path = ''a.zig'', is_file = True,
        contents = Text example_source\<rparr>]"

text \<open>
  The scenario of the specification for the assembler: a registry of two chapters, of which
  only \<open>a.md\<close> exists, with the content \<open># A\<close>, newline, \<open>Hello\<close>.
\<close>

definition scenario_chapters :: "(string \<times> string) list" where
  "scenario_chapters = [(''a.md'', ''Intro''), (''b.md'', ''Setup'')]"

definition scenario_dir :: "string \<Rightarrow> chapter_file" where
  "scenario_dir filename =
     (if filename = ''a.md'' then Readable (''# A'' @ [nl] @ ''Hello'') else Missing)"

text \<open>The directory of the scenario with \<open>a.md\<close> present and not readable.\<close>

definition unreadable_dir :: "string \<Rightarrow> chapter_file" where
  "unreadable_dir filename = (if filename = ''a.md'' then Unreadable OSError else Missing)"

section \<open>Strings and lists\<close>

lemma split_not_Nil: "split sep s \<noteq> []"
  by (induction s) (auto split: list.splits)

lemma split_no_sep: "l \<in> set (split sep s) \<Longrightarrow> sep \<notin> set l"
  by (induction s arbitrary: l) (auto split: list.splits if_splits)

lemma join_split: "join [sep] (split sep s) = s"
proof (induction s)
  case Nil
  show ?case by simp
next
  case (Cons c s)
  obtain l ls where sp: "split sep s = l # ls"
    using split_not_Nil [of sep s] by (cases "split sep s") auto
  show ?case
  proof (cases "c = sep")
    case True
    with Cons sp show ?thesis by simp
  next
    case False
    with Cons sp show ?thesis by (cases ls) auto
  qed
qed

lemma split_single: "sep \<notin> set x \<Longrightarrow> split sep x = [x]"
  by (induction x) auto

lemma split_append_sep: "sep \<notin> set x \<Longrightarrow> split sep (x @ sep # s) = x # split sep s"
  by (induction x) auto

lemma split_join:
  "xs \<noteq> [] \<Longrightarrow> \<forall>x\<in>set xs. sep \<notin> set x \<Longrightarrow> split sep (join [sep] xs) = xs"
proof (induction xs)
  case Nil
  then show ?case by simp
next
  case (Cons x xs)
  then have x: "sep \<notin> set x" by simp
  show ?case
  proof (cases xs)
    case Nil
    with x show ?thesis by (simp add: split_single)
  next
    case (Cons y ys)
    with Cons.IH Cons.prems have "split sep (join [sep] (y # ys)) = y # ys" by simp
    with x Cons show ?thesis by (simp add: split_append_sep)
  qed
qed

lemma set_strip: "set (strip s) \<subseteq> set s"
proof -
  have "set (strip s) = set (dropWhile isspace (rev (dropWhile isspace s)))"
    by (simp add: strip_def)
  also have "\<dots> \<subseteq> set (rev (dropWhile isspace s))" by (rule set_dropWhileD[THEN subsetI]) 
  also have "\<dots> \<subseteq> set s" using set_dropWhileD by fastforce
  finally show ?thesis .
qed

lemma doc_text_no_nl: "nl \<notin> set l \<Longrightarrow> nl \<notin> set (doc_text l)"
  using set_strip [of "drop 3 (strip l)"] set_strip [of l] set_drop_subset [of 3 "strip l"]
  unfolding doc_text_def by blast

lemma doc_run_Suc:
  "i < length lines \<Longrightarrow> doc_run lines (Suc i) =
     (if is_item_doc (lines ! i) then doc_run lines i @ [lines ! i] else [])"
  by (simp add: doc_run_def take_Suc_conv_app_nth)

lemma doc_scan_run:
  "i \<le> length lines \<Longrightarrow>
   \<exists>rs. doc_scan lines (int i - 1) acc rd = Inr (map doc_text (doc_run lines i) @ acc, rd @ rs)
      \<and> (\<forall>r\<in>set rs. 0 \<le> r \<and> r < int i)"
proof (induction i arbitrary: acc rd)
  case 0
  show ?case by (simp add: doc_scan.simps doc_run_def)
next
  case (Suc i)
  then have lt: "i < length lines" by simp
  have g: "getitem lines (int i) = Inr (lines ! i)"
    using lt by (simp add: getitem_def)
  show ?case
  proof (cases "is_item_doc (lines ! i)")
    case True
    from Suc.IH [of "doc_text (lines ! i) # acc" "rd @ [int i]"] lt
    obtain rs where rs: "doc_scan lines (int i - 1) (doc_text (lines ! i) # acc) (rd @ [int i])
        = Inr (map doc_text (doc_run lines i) @ doc_text (lines ! i) # acc, (rd @ [int i]) @ rs)"
      and bound: "\<forall>r\<in>set rs. 0 \<le> r \<and> r < int i"
      by auto
    have "doc_scan lines (int (Suc i) - 1) acc rd
        = Inr (map doc_text (doc_run lines (Suc i)) @ acc, rd @ (int i # rs))"
      using True rs g lt
      by (subst doc_scan.simps) (simp add: doc_run_Suc)
    moreover have "\<forall>r\<in>set (int i # rs). 0 \<le> r \<and> r < int (Suc i)"
      using bound by auto
    ultimately show ?thesis by blast
  next
    case False
    have "doc_scan lines (int (Suc i) - 1) acc rd
        = Inr (map doc_text (doc_run lines (Suc i)) @ acc, rd @ [int i])"
      using False g lt
      by (subst doc_scan.simps) (simp add: doc_run_Suc)
    then show ?thesis by auto
  qed
qed


lemma join_empty_iff: "join [sep] xs = [] \<longleftrightarrow> xs = [] \<or> xs = [[]]"
proof (cases xs)
  case Nil
  then show ?thesis by simp
next
  case (Cons x ys)
  then show ?thesis by (cases ys) auto
qed

lemma doc_run_suffix:
  "\<exists>k\<le>i. doc_run lines i = drop k (take i lines) \<and> (\<forall>l\<in>set (doc_run lines i). is_item_doc l)
      \<and> (0 < k \<longrightarrow> i \<le> length lines \<longrightarrow> \<not> is_item_doc (lines ! (k - 1)))"
proof -
  define xs where "xs = take i lines"
  define n where "n = length (takeWhile is_item_doc (rev xs))"
  define k where "k = length xs - n"
  have n_le: "n \<le> length xs"
    unfolding n_def using length_takeWhile_le [of is_item_doc "rev xs"] by simp
  have len: "length xs \<le> i" by (simp add: xs_def)
  have "takeWhile is_item_doc (rev xs) = take n (rev xs)"
    unfolding n_def by (rule takeWhile_eq_take)
  then have "doc_run lines i = rev (take n (rev xs))"
    by (simp add: doc_run_def xs_def)
  also have "\<dots> = drop (length xs - n) xs"
    by (simp add: rev_take)
  also have "\<dots> = drop k (take i lines)"
    by (simp add: k_def xs_def)
  finally have run: "doc_run lines i = drop k (take i lines)" .
  have all: "\<forall>l\<in>set (doc_run lines i). is_item_doc l"
    unfolding doc_run_def using set_takeWhileD by fastforce
  have blocked: "\<not> is_item_doc (lines ! (k - 1))" if "0 < k" "i \<le> length lines"
  proof -
    from that have lx: "length xs = i" by (simp add: xs_def)
    from that have "n < length (rev xs)" by (simp add: k_def)
    then have "\<not> is_item_doc (rev xs ! n)"
      unfolding n_def by (rule nth_length_takeWhile)
    moreover have "rev xs ! n = xs ! (k - 1)"
      using that lx \<open>n < length (rev xs)\<close> by (simp add: rev_nth k_def)
    moreover have "xs ! (k - 1) = lines ! (k - 1)"
      using that by (simp add: xs_def k_def)
    ultimately show ?thesis by simp
  qed
  have "k \<le> i" using len by (simp add: k_def)
  with run all blocked show ?thesis by blast
qed

lemma doc_run_all: "\<forall>l\<in>set (take i lines). is_item_doc l \<Longrightarrow> doc_run lines i = take i lines"
  by (simp add: doc_run_def takeWhile_eq_all_conv[THEN iffD2])

lemma doc_run_blocked:
  "0 < i \<Longrightarrow> i \<le> length lines \<Longrightarrow> \<not> is_item_doc (lines ! (i - 1)) \<Longrightarrow> doc_run lines i = []"
  by (cases i) (simp_all add: doc_run_Suc)

lemma doc_run_subset: "set (doc_run lines i) \<subseteq> set lines"
  unfolding doc_run_def using set_takeWhileD set_take_subset by fastforce

lemma enumerate_from_nth:
  "k < length xs \<Longrightarrow> enumerate_from n xs ! k = (n + int k, xs ! k)"
  by (induction xs arbitrary: n k) (auto simp: nth_Cons split: nat.splits)

lemma length_enumerate_from [simp]: "length (enumerate_from n xs) = length xs"
  by (induction xs arbitrary: n) auto

lemma enumerate_from_set:
  "e \<in> set (enumerate_from n xs) \<longleftrightarrow> (\<exists>k<length xs. e = (n + int k, xs ! k))"
  by (metis enumerate_from_nth in_set_conv_nth length_enumerate_from)

lemma function_at_pair:
  "function_at lines (i, l) =
     (if startswith (strip l) ''pub fn '' then
        (case match_pub_fn (strip l) of
           None \<Rightarrow> None
         | Some (nm, ps, rt) \<Rightarrow>
             Some \<lparr>name = nm, params = ps, return_type = strip rt,
                   documentation = join [nl] (map doc_text (doc_run lines (nat i))),
                   line = i + 1\<rparr>)
      else None)"
  by (simp add: function_at_def)

lemma type_at_pair:
  "type_at lines (i, l) =
     (if startswith (strip l) ''pub const '' \<and>
         (contains (strip l) ''struct'' \<or> contains (strip l) ''union'' \<or>
          contains (strip l) ''enum'')
      then
        (case match_pub_const (strip l) of
           None \<Rightarrow> None
         | Some (nm, td) \<Rightarrow>
             Some \<lparr>type_name = nm, type_body = strip td,
                   type_documentation = join [nl] (map doc_text (doc_run lines (nat i))),
                   type_line = i + 1\<rparr>)
      else None)"
  by (simp add: type_at_def)

lemma function_loop_eq:
  "\<forall>e\<in>set xs. 0 \<le> fst e \<and> fst e \<le> int (length lines) \<Longrightarrow>
   function_loop lines xs acc = Inr (acc @ List.map_filter (function_at lines) xs)"
proof (induction xs arbitrary: acc)
  case Nil
  show ?case by simp
next
  case (Cons e xs)
  obtain i l where e: "e = (i, l)" by (cases e)
  from Cons.prems e have i: "0 \<le> i" "nat i \<le> length lines" by auto
  from doc_scan_run [OF i(2), of "[]" "[]"] i(1)
  obtain rs where scan: "doc_scan lines (i - 1) [] [] = Inr (map doc_text (doc_run lines (nat i)), rs)"
    by auto
  have ih: "\<And>acc. function_loop lines xs acc = Inr (acc @ List.map_filter (function_at lines) xs)"
    using Cons by simp
  show ?case
    unfolding e
    by (simp add: ih scan function_at_pair Let_def split: option.splits)
qed

lemma type_loop_eq:
  "\<forall>e\<in>set xs. 0 \<le> fst e \<and> fst e \<le> int (length lines) \<Longrightarrow>
   type_loop lines xs acc = Inr (acc @ List.map_filter (type_at lines) xs)"
proof (induction xs arbitrary: acc)
  case Nil
  show ?case by simp
next
  case (Cons e xs)
  obtain i l where e: "e = (i, l)" by (cases e)
  from Cons.prems e have i: "0 \<le> i" "nat i \<le> length lines" by auto
  from doc_scan_run [OF i(2), of "[]" "[]"] i(1)
  obtain rs where scan: "doc_scan lines (i - 1) [] [] = Inr (map doc_text (doc_run lines (nat i)), rs)"
    by auto
  have ih: "\<And>acc. type_loop lines xs acc = Inr (acc @ List.map_filter (type_at lines) xs)"
    using Cons by simp
  show ?case
    unfolding e
    by (simp add: ih scan type_at_pair Let_def split: option.splits)
qed

lemma enumerate_from_bounds:
  "\<forall>e\<in>set (enumerate_from 0 lines). 0 \<le> fst e \<and> fst e \<le> int (length lines)"
  by (auto simp: enumerate_from_set)

lemma extract_function_signatures_eq:
  "extract_function_signatures content =
     Inr (List.map_filter (function_at (split nl content)) (enumerate_from 0 (split nl content)))"
  using function_loop_eq [OF enumerate_from_bounds, of "split nl content" "[]"]
  by (simp add: extract_function_signatures_def Let_def)

lemma extract_structs_and_enums_eq:
  "extract_structs_and_enums content =
     Inr (List.map_filter (type_at (split nl content)) (enumerate_from 0 (split nl content)))"
  using type_loop_eq [OF enumerate_from_bounds, of "split nl content" "[]"]
  by (simp add: extract_structs_and_enums_def Let_def)

section \<open>The extractors\<close>

subsection \<open>Documentation of a declaration\<close>

lemma split_lines_no_nl: "l \<in> set (split nl content) \<Longrightarrow> nl \<notin> set l"
  by (rule split_no_sep)

lemma in_set_map_filter: "y \<in> set (List.map_filter f xs) \<longleftrightarrow> (\<exists>x\<in>set xs. f x = Some y)"
  by (induction xs) (auto split: option.splits)

lemma function_origin:
  assumes "extract_function_signatures content = Inr fs" and "r \<in> set fs"
  shows "\<exists>k<length (split nl content).
           function_at (split nl content) (int k, split nl content ! k) = Some r"
proof -
  from assms have "r \<in> set (List.map_filter (function_at (split nl content))
      (enumerate_from 0 (split nl content)))"
    by (simp add: extract_function_signatures_eq)
  then obtain e where e: "e \<in> set (enumerate_from 0 (split nl content))"
    and at: "function_at (split nl content) e = Some r"
    unfolding in_set_map_filter by blast
  from e obtain k where "k < length (split nl content)" "e = (int k, split nl content ! k)"
    unfolding enumerate_from_set by auto
  with at show ?thesis by blast
qed

lemma type_origin:
  assumes "extract_structs_and_enums content = Inr ts" and "t \<in> set ts"
  shows "\<exists>k<length (split nl content).
           type_at (split nl content) (int k, split nl content ! k) = Some t"
proof -
  from assms have "t \<in> set (List.map_filter (type_at (split nl content))
      (enumerate_from 0 (split nl content)))"
    by (simp add: extract_structs_and_enums_eq)
  then obtain e where e: "e \<in> set (enumerate_from 0 (split nl content))"
    and at: "type_at (split nl content) e = Some t"
    unfolding in_set_map_filter by blast
  from e obtain k where "k < length (split nl content)" "e = (int k, split nl content ! k)"
    unfolding enumerate_from_set by auto
  with at show ?thesis by blast
qed

lemma function_at_SomeD:
  assumes "function_at lines (int k, l) = Some r"
  shows "line r = int k + 1"
    and "documentation r = join [nl] (map doc_text (doc_run lines k))"
    and "startswith (strip l) ''pub fn ''"
    and "match_pub_fn (strip l) \<noteq> None"
  using assms by (auto simp: function_at_pair split: if_splits option.splits)

lemma type_at_SomeD:
  assumes "type_at lines (int k, l) = Some t"
  shows "type_line t = int k + 1"
    and "type_documentation t = join [nl] (map doc_text (doc_run lines k))"
    and "startswith (strip l) ''pub const ''"
  using assms by (auto simp: type_at_pair split: if_splits option.splits)

lemma documented_by_run_join:
  assumes k: "k < length lines" and nonl: "\<forall>l\<in>set lines. nl \<notin> set l"
  shows "documented_by_run lines (int k + 1) (join [nl] (map doc_text (doc_run lines k)))"
proof -
  let ?xs = "map doc_text (doc_run lines k)"
  have no: "\<forall>x\<in>set ?xs. nl \<notin> set x"
    using nonl doc_run_subset [of lines k] doc_text_no_nl by auto
  have entries: "documentation_entries (join [nl] ?xs) = ?xs" if "?xs \<noteq> [[]]"
  proof (cases "?xs = []")
    case True
    then show ?thesis by (simp add: documentation_entries_def)
  next
    case False
    with that have "join [nl] ?xs \<noteq> []" by (simp add: join_empty_iff)
    then show ?thesis
      using split_join [OF False no] by (simp add: documentation_entries_def)
  qed
  have blocked: "join [nl] ?xs = []" if "0 < k" "\<not> is_item_doc (lines ! (k - 1))"
    using doc_run_blocked [of k lines] that k by simp
  show ?thesis
    unfolding documented_by_run_def using k entries blocked by (simp add: Let_def)
qed

text \<open>
  C1 (as amended). Both extractors return, and every record they return carries as its
  documentation the newline-join of the marker-stripped lines of the maximal contiguous run
  of item-doc lines that ends immediately before the declaration line, in source order. The
  run is a suffix of the lines above the declaration, all of its lines are item-doc lines,
  and the line before it, if there is one, is not. When all \<open>N\<close> lines above the declaration
  are item-doc lines the run is these \<open>N\<close> lines. The entries of the stored string are the
  lines of the run, except for a run of one item-doc line without text, which is stored as
  the empty string; a line directly above the declaration that is no item-doc line (a blank
  line for one) leaves the documentation empty.
\<close>

theorem documentation_is_join_of_preceding_run:
  "(\<exists>fs ts. extract_function_signatures content = Inr fs \<and>
      extract_structs_and_enums content = Inr ts \<and>
      (\<forall>r\<in>set fs. documented_by_run (split nl content) (line r) (documentation r)) \<and>
      (\<forall>t\<in>set ts. documented_by_run (split nl content) (type_line t) (type_documentation t))) \<and>
   (\<exists>k\<le>i. doc_run lines i = drop k (take i lines) \<and>
      (\<forall>l\<in>set (doc_run lines i). is_item_doc l) \<and>
      (0 < k \<longrightarrow> i \<le> length lines \<longrightarrow> \<not> is_item_doc (lines ! (k - 1)))) \<and>
   ((\<forall>l\<in>set (take i lines). is_item_doc l) \<longrightarrow> doc_run lines i = take i lines)"
proof -
  let ?ls = "split nl content"
  have nonl: "\<forall>l\<in>set ?ls. nl \<notin> set l" using split_lines_no_nl by blast
  have f: "documented_by_run ?ls (line r) (documentation r)"
    if "extract_function_signatures content = Inr fs" "r \<in> set fs" for fs r
  proof -
    from function_origin [OF that] obtain k where k: "k < length ?ls"
      and at: "function_at ?ls (int k, ?ls ! k) = Some r" by blast
    show ?thesis
      using documented_by_run_join [OF k nonl] function_at_SomeD(1,2) [OF at] by simp
  qed
  have t: "documented_by_run ?ls (type_line t) (type_documentation t)"
    if "extract_structs_and_enums content = Inr ts" "t \<in> set ts" for ts t
  proof -
    from type_origin [OF that] obtain k where k: "k < length ?ls"
      and at: "type_at ?ls (int k, ?ls ! k) = Some t" by blast
    show ?thesis
      using documented_by_run_join [OF k nonl] type_at_SomeD(1,2) [OF at] by simp
  qed
  have ex: "\<exists>fs ts. extract_function_signatures content = Inr fs \<and>
      extract_structs_and_enums content = Inr ts \<and>
      (\<forall>r\<in>set fs. documented_by_run ?ls (line r) (documentation r)) \<and>
      (\<forall>t\<in>set ts. documented_by_run ?ls (type_line t) (type_documentation t))"
    using f t extract_function_signatures_eq [of content] extract_structs_and_enums_eq [of content]
    by blast
  show ?thesis
    using ex doc_run_suffix [of i lines] doc_run_all [of i lines] by blast
qed

theorem documentation_is_join_of_preceding_run_witness:
  "extract_function_signatures example_source =
     Inr [\<lparr>name = ''f'', params = [], return_type = ''void'',
           documentation = ''a'' @ [nl] @ ''b'', line = 3\<rparr>] \<and>
   ''a'' @ [nl] @ ''b'' = join [nl] (map doc_text (doc_run (split nl example_source) 2)) \<and>
   documentation_entries (''a'' @ [nl] @ ''b'') = [''a'', ''b''] \<and>
   doc_run (split nl example_source) 2 = [''/// a'', ''  /// b'']"
proof -
  let ?r = "\<lparr>name = ''f'', params = [], return_type = ''void'',
           documentation = ''a'' @ [nl] @ ''b'', line = 3\<rparr>"
  have ev: "extract_function_signatures example_source = Inr [?r]"
    by code_simp
  have run: "doc_run (split nl example_source) 2 = [''/// a'', ''  /// b'']"
    by code_simp
  have ent: "documentation_entries (''a'' @ [nl] @ ''b'') = [''a'', ''b'']"
    by code_simp
  from documentation_is_join_of_preceding_run [of example_source 2 "split nl example_source"]
  obtain fs where fs: "extract_function_signatures example_source = Inr fs"
    and all: "\<forall>r\<in>set fs. documented_by_run (split nl example_source) (line r) (documentation r)"
    by blast
  from fs ev have "fs = [?r]" by simp
  then have "?r \<in> set fs" by simp
  with all have "documented_by_run (split nl example_source) (line ?r) (documentation ?r)" by blast
  then have "''a'' @ [nl] @ ''b'' = join [nl] (map doc_text (doc_run (split nl example_source) 2))"
    by (simp add: documented_by_run_def Let_def)
  with ev run ent show ?thesis by blast
qed

text \<open>
  C1 (as stated) fails for a declaration below the single line \<open>///\<close>: the run has one
  line, the stored documentation is the empty string, which has no entry, as for a
  declaration without any comment above it.
\<close>

theorem single_empty_doc_line_counterexample:
  "extract_function_signatures (''///'' @ [nl] @ ''pub fn f() void {'') =
     Inr [\<lparr>name = ''f'', params = [], return_type = ''void'', documentation = [], line = 2\<rparr>] \<and>
   doc_run (split nl (''///'' @ [nl] @ ''pub fn f() void {'')) 1 = [''///''] \<and>
   documentation_entries [] \<noteq> map doc_text [''///'']"
  by code_simp

text \<open>
  C6. For the source \<open>/// Adds two numbers\<close> followed by
  \<open>pub fn add(a: i32, b: i32) i32 {\<close> the extractor returns one record, with name
  \<open>add\<close>, the documentation \<open>Adds two numbers\<close> (one entry) and the return type \<open>i32\<close>.
\<close>

theorem adds_two_numbers_scenario:
  "extract_function_signatures
     (''/// Adds two numbers'' @ [nl] @ ''pub fn add(a: i32, b: i32) i32 {'') =
     Inr [\<lparr>name = ''add'', params = ''a: i32, b: i32'', return_type = ''i32'',
           documentation = ''Adds two numbers'', line = 2\<rparr>] \<and>
   documentation_entries ''Adds two numbers'' = [''Adds two numbers''] \<and>
   contains ''i32'' ''i32''"
  by code_simp

subsection \<open>Lines that the pattern does not match\<close>

lemma startswith_nth: "startswith s p \<Longrightarrow> n < length p \<Longrightarrow> s ! n = p ! n"
  unfolding startswith_def by (metis nth_take)

lemma pub_fn_not_pub_const:
  assumes "startswith s ''pub fn ''"
  shows "\<not> startswith s ''pub const ''"
proof
  assume c: "startswith s ''pub const ''"
  have "s ! 4 = ''pub fn '' ! 4" by (rule startswith_nth [OF assms]) simp
  moreover have "s ! 4 = ''pub const '' ! 4" by (rule startswith_nth [OF c]) simp
  ultimately show False by simp
qed






subsection \<open>Functions and types\<close>

lemma extracted_lines_disjoint:
  assumes fs: "extract_function_signatures content = Inr fs"
    and ts: "extract_structs_and_enums content = Inr ts"
  shows "line ` set fs \<inter> type_line ` set ts = {}"
proof -
  let ?ls = "split nl content"
  have False if r: "r \<in> set fs" and t: "t \<in> set ts" and eq: "line r = type_line t" for r t
  proof -
    from function_origin [OF fs r] obtain k where
      at: "function_at ?ls (int k, ?ls ! k) = Some r" by blast
    from type_origin [OF ts t] obtain k' where
      at': "type_at ?ls (int k', ?ls ! k') = Some t" by blast
    from function_at_SomeD(1) [OF at] type_at_SomeD(1) [OF at'] eq have "k' = k" by simp
    with function_at_SomeD(3) [OF at] type_at_SomeD(3) [OF at'] pub_fn_not_pub_const
    show False by blast
  qed
  then show ?thesis by blast
qed

text \<open>
  C8. The extractors return for every source text, and no line number is both the line of
  a function record and the line of a type record; so it is for the two lists of the record
  that \<open>process_source_file\<close> returns for a file.
\<close>

theorem functions_and_types_share_no_line:
  "(\<exists>fs ts. extract_function_signatures content = Inr fs \<and>
      extract_structs_and_enums content = Inr ts \<and>
      line ` set fs \<inter> type_line ` set ts = {}) \<and>
   (process_source_file sf = Inr (Some fi, out) \<longrightarrow>
      line ` set (info_functions fi) \<inter> type_line ` set (info_types fi) = {})"
proof -
  have a: "\<exists>fs ts. extract_function_signatures content = Inr fs \<and>
      extract_structs_and_enums content = Inr ts \<and>
      line ` set fs \<inter> type_line ` set ts = {}"
    using extracted_lines_disjoint extract_function_signatures_eq [of content]
      extract_structs_and_enums_eq [of content] by blast
  have b: "line ` set (info_functions fi) \<inter> type_line ` set (info_types fi) = {}"
    if p: "process_source_file sf = Inr (Some fi, out)"
  proof -
    from p obtain c where c: "contents sf = Text c"
      by (auto simp: process_source_file_def split: read_result.splits py_error.splits)
    from p c have "extract_function_signatures c = Inr (info_functions fi)"
      and "extract_structs_and_enums c = Inr (info_types fi)"
      by (auto simp: process_source_file_def extract_function_signatures_eq
          extract_structs_and_enums_eq)
    then show ?thesis by (rule extracted_lines_disjoint)
  qed
  from a b show ?thesis by blast
qed

theorem functions_and_types_share_no_line_witness:
  "process_source_file example_file =
     Inr (Some \<lparr>info_file = ''a.zig'', info_module_docs = [''a'', ''b''],
                info_functions = [\<lparr>name = ''f'', params = [], return_type = ''void'',
                                   documentation = ''a'' @ [nl] @ ''b'', line = 3\<rparr>],
                info_types = [\<lparr>type_name = ''T'', type_body = ''struct'',
                               type_documentation = [], type_line = 5\<rparr>]\<rparr>, []) \<and>
   {3 :: int} \<inter> {5} = {}"
proof -
  let ?fi = "\<lparr>info_file = ''a.zig'', info_module_docs = [''a'', ''b''],
                info_functions = [\<lparr>name = ''f'', params = [], return_type = ''void'',
                                   documentation = ''a'' @ [nl] @ ''b'', line = 3\<rparr>],
                info_types = [\<lparr>type_name = ''T'', type_body = ''struct'',
                               type_documentation = [], type_line = 5\<rparr>]\<rparr>"
  have ev: "process_source_file example_file = Inr (Some ?fi, [])"
    by code_simp
  from functions_and_types_share_no_line [of example_source example_file ?fi "[]"] ev
  have "line ` set (info_functions ?fi) \<inter> type_line ` set (info_types ?fi) = {}" by blast
  then have "{3 :: int} \<inter> {5} = {}" by simp
  with ev show ?thesis by blast
qed

subsection \<open>The backward scan at the start of the file\<close>

lemma doc_scan_all:
  "i \<le> length lines \<Longrightarrow> \<forall>l\<in>set (take i lines). is_item_doc l \<Longrightarrow>
   doc_scan lines (int i - 1) acc rd =
     Inr (map doc_text (take i lines) @ acc, rd @ rev (map int [0..<i]))"
proof (induction i arbitrary: acc rd)
  case 0
  show ?case by (simp add: doc_scan.simps)
next
  case (Suc i)
  then have lt: "i < length lines" by simp
  have g: "getitem lines (int i) = Inr (lines ! i)"
    using lt by (simp add: getitem_def)
  from Suc.prems lt have d: "is_item_doc (lines ! i)" and rest: "\<forall>l\<in>set (take i lines). is_item_doc l"
    by (auto simp: take_Suc_conv_app_nth)
  from Suc.IH [of "doc_text (lines ! i) # acc" "rd @ [int i]"] lt rest
  have "doc_scan lines (int i - 1) (doc_text (lines ! i) # acc) (rd @ [int i])
      = Inr (map doc_text (take i lines) @ doc_text (lines ! i) # acc,
             (rd @ [int i]) @ rev (map int [0..<i]))"
    by simp
  then show ?case
    using d g lt by (subst doc_scan.simps) (simp add: take_Suc_conv_app_nth)
qed

text \<open>
  C10. The backward scan from a declaration at line index \<open>i\<close> returns, and every index
  at which it reads \<open>lines\<close> is at least 0 and below \<open>i\<close>. When all lines above the
  declaration are item-doc lines the scan reads the indices \<open>i - 1\<close> down to \<open>0\<close> and
  stops there with all of them collected. For a declaration on the first line the scan reads
  nothing, and the record's documentation is empty.
\<close>

theorem backward_scan_stays_inside_file:
  "(i \<le> length lines \<longrightarrow>
      (\<exists>doc_lines reads. doc_scan lines (int i - 1) [] [] = Inr (doc_lines, reads) \<and>
         (\<forall>j\<in>set reads. 0 \<le> j \<and> j < int i) \<and>
         ((\<forall>l\<in>set (take i lines). is_item_doc l) \<longrightarrow>
            doc_lines = map doc_text (take i lines) \<and> reads = rev (map int [0..<i])))) \<and>
   doc_scan lines (- 1) [] [] = Inr ([], []) \<and>
   (\<exists>fs ts. extract_function_signatures content = Inr fs \<and>
      extract_structs_and_enums content = Inr ts \<and>
      (\<forall>r\<in>set fs. line r = 1 \<longrightarrow> documentation r = []) \<and>
      (\<forall>t\<in>set ts. type_line t = 1 \<longrightarrow> type_documentation t = []))"
proof -
  have scan: "\<exists>doc_lines reads. doc_scan lines (int i - 1) [] [] = Inr (doc_lines, reads) \<and>
         (\<forall>j\<in>set reads. 0 \<le> j \<and> j < int i) \<and>
         ((\<forall>l\<in>set (take i lines). is_item_doc l) \<longrightarrow>
            doc_lines = map doc_text (take i lines) \<and> reads = rev (map int [0..<i]))"
    if le: "i \<le> length lines"
  proof -
    from doc_scan_run [OF le, of "[]" "[]"] obtain rs where
      rs: "doc_scan lines (int i - 1) [] [] = Inr (map doc_text (doc_run lines i), rs)"
      and bound: "\<forall>j\<in>set rs. 0 \<le> j \<and> j < int i" by auto
    have "map doc_text (doc_run lines i) = map doc_text (take i lines) \<and> rs = rev (map int [0..<i])"
      if "\<forall>l\<in>set (take i lines). is_item_doc l"
      using doc_scan_all [OF le that, of "[]" "[]"] rs by simp
    with rs bound show ?thesis by blast
  qed
  have first: "doc_scan lines (- 1) [] [] = Inr ([], [])"
    by (simp add: doc_scan.simps)
  let ?ls = "split nl content"
  let ?fs = "List.map_filter (function_at ?ls) (enumerate_from 0 ?ls)"
  let ?ts = "List.map_filter (type_at ?ls) (enumerate_from 0 ?ls)"
  have f: "documentation r = []" if "r \<in> set ?fs" "line r = 1" for r
  proof -
    from function_origin [OF extract_function_signatures_eq that(1)] obtain k where
      at: "function_at ?ls (int k, ?ls ! k) = Some r" by blast
    from function_at_SomeD(1) [OF at] that(2) have "k = 0" by simp
    with function_at_SomeD(2) [OF at] show ?thesis by (simp add: doc_run_def)
  qed
  have t: "type_documentation t = []" if "t \<in> set ?ts" "type_line t = 1" for t
  proof -
    from type_origin [OF extract_structs_and_enums_eq that(1)] obtain k where
      at: "type_at ?ls (int k, ?ls ! k) = Some t" by blast
    from type_at_SomeD(1) [OF at] that(2) have "k = 0" by simp
    with type_at_SomeD(2) [OF at] show ?thesis by (simp add: doc_run_def)
  qed
  have "\<exists>fs ts. extract_function_signatures content = Inr fs \<and>
      extract_structs_and_enums content = Inr ts \<and>
      (\<forall>r\<in>set fs. line r = 1 \<longrightarrow> documentation r = []) \<and>
      (\<forall>t\<in>set ts. type_line t = 1 \<longrightarrow> type_documentation t = [])"
    using f t extract_function_signatures_eq [of content] extract_structs_and_enums_eq [of content]
    by blast
  with scan first show ?thesis by blast
qed

theorem backward_scan_stays_inside_file_witness:
  "2 \<le> length (split nl example_source) \<and>
   doc_scan (split nl example_source) 1 [] [] = Inr ([''a'', ''b''], [1, 0]) \<and>
   extract_function_signatures first_line_source =
     Inr [\<lparr>name = ''f'', params = [], return_type = ''void'', documentation = [], line = 1\<rparr>]"
proof -
  have le: "2 \<le> length (split nl example_source)" by code_simp
  have al: "\<forall>l\<in>set (take 2 (split nl example_source)). is_item_doc l" by code_simp
  have tk: "map doc_text (take 2 (split nl example_source)) = [''a'', ''b'']" by code_simp
  have rd: "rev (map int [0..<2]) = [1, 0]" by code_simp
  have ev: "extract_function_signatures first_line_source =
     Inr [\<lparr>name = ''f'', params = [], return_type = ''void'', documentation = [], line = 1\<rparr>]"
    by code_simp
  from backward_scan_stays_inside_file [of 2 "split nl example_source" first_line_source] le al
  obtain doc_lines reads where
    "doc_scan (split nl example_source) (int 2 - 1) [] [] = Inr (doc_lines, reads)"
    "doc_lines = map doc_text (take 2 (split nl example_source))"
    "reads = rev (map int [0..<2])"
    by blast
  with tk rd have "doc_scan (split nl example_source) 1 [] [] = Inr ([''a'', ''b''], [1, 0])"
    by simp
  with le ev show ?thesis by blast
qed


subsection \<open>Documentation comments\<close>

lemma foldl_doc_comment_step:
  "foldl doc_comment_step acc ls = acc @ map doc_text (filter is_doc_comment ls)"
  by (induction ls arbitrary: acc)
    (auto simp: doc_comment_step_def is_doc_comment_def doc_text_def Let_def)

text \<open>
  C4 (as amended). The comment extractor returns, in source order, one value for every line
  whose trimmed form begins with \<open>//!\<close> or \<open>///\<close>: the trimmed line without its first
  three characters, trimmed again of all leading and trailing white space. Other lines add
  nothing, and a source without such a line yields the empty sequence.
\<close>

theorem doc_comments_are_trimmed_marker_lines:
  "extract_doc_comments content = map doc_text (filter is_doc_comment (split nl content)) \<and>
   ((\<forall>l\<in>set (split nl content). \<not> is_doc_comment l) \<longrightarrow> extract_doc_comments content = [])"
proof -
  have eq: "extract_doc_comments content = map doc_text (filter is_doc_comment (split nl content))"
    by (simp add: extract_doc_comments_def foldl_doc_comment_step)
  moreover have "extract_doc_comments content = []"
    if "\<forall>l\<in>set (split nl content). \<not> is_doc_comment l"
    using that unfolding eq by (simp add: filter_empty_conv[THEN iffD2])
  ultimately show ?thesis by blast
qed

theorem doc_comments_are_trimmed_marker_lines_witness:
  "extract_doc_comments comment_source = [''x'', ''mod''] \<and>
   split nl plain_source = [''const y = 1;'', ''// note''] \<and>
   \<not> is_doc_comment ''const y = 1;'' \<and> \<not> is_doc_comment ''// note'' \<and>
   extract_doc_comments plain_source = []"
proof -
  have sp: "split nl plain_source = [''const y = 1;'', ''// note'']" by code_simp
  have n1: "\<not> is_doc_comment ''const y = 1;''" by code_simp
  have n2: "\<not> is_doc_comment ''// note''" by code_simp
  have m: "map doc_text (filter is_doc_comment (split nl comment_source)) = [''x'', ''mod'']"
    by code_simp
  from sp n1 n2 have none: "\<forall>l\<in>set (split nl plain_source). \<not> is_doc_comment l" by simp
  from doc_comments_are_trimmed_marker_lines [of comment_source] m
  have a: "extract_doc_comments comment_source = [''x'', ''mod'']" by simp
  from doc_comments_are_trimmed_marker_lines [of plain_source] none
  have b: "extract_doc_comments plain_source = []" by blast
  from a b sp n1 n2 show ?thesis by blast
qed

text \<open>
  C4 (as stated) fails for the line \<open>///  x\<close>, with two spaces after the marker:
  removing the marker and one space leaves a space before \<open>x\<close>, the extractor stores
  \<open>x\<close>.
\<close>

theorem marker_and_one_space_counterexample:
  "extract_doc_comments ''///  x'' = [''x''] \<and>
   spec_doc_comments ''///  x'' = ['' x''] \<and>
   extract_doc_comments ''///  x'' \<noteq> spec_doc_comments ''///  x''"
  by code_simp


section \<open>Scanning a batch of files\<close>

lemma process_text:
  "contents sf = Text c \<Longrightarrow> \<exists>fi. process_source_file sf = Inr (Some fi, [])"
  by (simp add: process_source_file_def extract_function_signatures_eq
      extract_structs_and_enums_eq)

lemma process_undecodable:
  "contents sf = Raises UnicodeDecodeError \<Longrightarrow>
   process_source_file sf = Inr (None, [decode_warning sf])"
  by (simp add: process_source_file_def decode_warning_def)

lemma process_uncaught:
  "contents sf = Raises e \<Longrightarrow> e \<noteq> UnicodeDecodeError \<Longrightarrow> process_source_file sf = Inl e"
  by (cases e) (simp_all add: process_source_file_def)

lemma update_fresh: "k \<notin> fst ` set al \<Longrightarrow> AList.update k v al = al @ [(k, v)]"
  by (induction al) auto

lemma scan_loop_ok:
  assumes "\<forall>sf\<in>set glob. \<not> raises_uncaught sf"
    and "distinct (map path glob)"
    and "\<forall>sf\<in>set glob. path sf \<notin> fst ` set api_docs"
  shows "\<exists>entries. scan_loop glob api_docs printed =
            Inr (api_docs @ entries, printed @ map decode_warning (filter is_undecodable glob)) \<and>
          list_all2 stored_for entries (filter is_readable glob)"
  using assms
proof (induction glob arbitrary: api_docs printed)
  case Nil
  show ?case by simp
next
  case (Cons sf glob)
  show ?case
  proof (cases "is_file sf")
    case False
    then have "\<not> is_undecodable sf" "\<not> is_readable sf"
      by (simp_all add: is_undecodable_def is_readable_def)
    with False Cons.IH [of api_docs printed] Cons.prems show ?thesis
      by simp
  next
    case True
    show ?thesis
    proof (cases "contents sf")
      case (Text c)
      from process_text [OF Text] obtain fi where fi: "process_source_file sf = Inr (Some fi, [])"
        by blast
      from Cons.prems have fresh: "path sf \<notin> fst ` set api_docs" by simp
      have "\<forall>x\<in>set glob. path x \<notin> fst ` set (api_docs @ [(path sf, fi)])"
      proof
        fix x assume x: "x \<in> set glob"
        with Cons.prems have "path x \<noteq> path sf" by (metis distinct.simps(2) image_eqI list.simps(9) set_map)
        moreover from x Cons.prems have "path x \<notin> fst ` set api_docs" by simp
        ultimately show "path x \<notin> fst ` set (api_docs @ [(path sf, fi)])" by auto
      qed
      with Cons.IH [of "api_docs @ [(path sf, fi)]" printed] Cons.prems
      obtain entries where
        e: "scan_loop glob (api_docs @ [(path sf, fi)]) printed =
            Inr ((api_docs @ [(path sf, fi)]) @ entries,
                 printed @ map decode_warning (filter is_undecodable glob))"
        and l: "list_all2 stored_for entries (filter is_readable glob)"
        by auto
      have hd: "\<not> is_undecodable sf" "is_readable sf" "stored_for (path sf, fi) sf"
        using True Text fi by (simp_all add: is_undecodable_def is_readable_def stored_for_def)
      have "scan_loop (sf # glob) api_docs printed =
          Inr (api_docs @ ((path sf, fi) # entries),
               printed @ map decode_warning (filter is_undecodable (sf # glob)))"
        using True fi e hd by (simp add: update_fresh [OF fresh])
      moreover have "list_all2 stored_for ((path sf, fi) # entries) (filter is_readable (sf # glob))"
        using hd l by simp
      ultimately show ?thesis by blast
    next
      case (Raises e)
      with True Cons.prems have e: "e = UnicodeDecodeError"
        by (simp add: raises_uncaught_def)
      from Cons.IH [of api_docs "printed @ [decode_warning sf]"] Cons.prems
      obtain entries where
        "scan_loop glob api_docs (printed @ [decode_warning sf]) =
            Inr (api_docs @ entries,
                 (printed @ [decode_warning sf]) @ map decode_warning (filter is_undecodable glob))"
        and "list_all2 stored_for entries (filter is_readable glob)"
        by auto
      moreover have "is_undecodable sf" "\<not> is_readable sf"
        using True Raises e by (simp_all add: is_undecodable_def is_readable_def)
      ultimately show ?thesis
        using True Raises e process_undecodable [of sf] by simp
    qed
  qed
qed

lemma scan_loop_fatal:
  "\<exists>sf\<in>set glob. raises_uncaught sf \<Longrightarrow> \<exists>e. scan_loop glob api_docs printed = Inl e"
proof (induction glob arbitrary: api_docs printed)
  case Nil
  then show ?case by simp
next
  case (Cons sf glob)
  show ?case
  proof (cases "raises_uncaught sf")
    case True
    then obtain e where "is_file sf" "contents sf = Raises e" "e \<noteq> UnicodeDecodeError"
      by (auto simp: raises_uncaught_def split: read_result.splits)
    then show ?thesis using process_uncaught [of sf e] by simp
  next
    case False
    with Cons.prems have ex: "\<exists>sf\<in>set glob. raises_uncaught sf" by simp
    show ?thesis
    proof (cases "is_file sf")
      case nf: False
      with Cons.IH [OF ex] show ?thesis by simp
    next
      case f: True
      show ?thesis
      proof (cases "contents sf")
        case (Text c)
        from process_text [OF Text] obtain fi where "process_source_file sf = Inr (Some fi, [])"
          by blast
        with f Cons.IH [OF ex] show ?thesis by simp
      next
        case (Raises e)
        with f False have "e = UnicodeDecodeError" by (simp add: raises_uncaught_def)
        with f Raises process_undecodable [of sf] Cons.IH [OF ex] show ?thesis by simp
      qed
    qed
  qed
qed

text \<open>
  C2 (as amended). In a batch of distinct paths in which no regular file raises anything but
  \<open>UnicodeDecodeError\<close> when read, the scan returns: it prints one warning for each file
  that does not decode, in order, and nothing else, and \<open>api_docs\<close> holds, in order, one
  entry for each file that is read, under its path, with the record that
  \<open>process_source_file\<close> returns for it. A batch with a regular file whose reading raises
  another exception does not return: the exception leaves \<open>scan_source_files\<close>.
\<close>

theorem decode_errors_are_skipped_with_a_warning:
  "(distinct (map path glob) \<and> (\<forall>sf\<in>set glob. \<not> raises_uncaught sf) \<longrightarrow>
      (\<exists>api_docs. scan_source_files glob =
           Inr (api_docs, map decode_warning (filter is_undecodable glob)) \<and>
         list_all2 stored_for api_docs (filter is_readable glob))) \<and>
   ((\<exists>sf\<in>set glob. raises_uncaught sf) \<longrightarrow> (\<exists>e. scan_source_files glob = Inl e))"
  using scan_loop_ok [of glob "[]" "[]"] scan_loop_fatal [of glob "[]" "[]"]
  unfolding scan_source_files_def by auto

theorem decode_errors_are_skipped_with_a_warning_witness:
  "distinct (map path batch) \<and>
   \<not> raises_uncaught (batch ! 0) \<and> \<not> raises_uncaught (batch ! 1) \<and>
   \<not> raises_uncaught (batch ! 2) \<and>
   scan_source_files batch =
     Inr ([(''src/a.zig'', example_info)], [''Warning: Could not read src/bad.zig as UTF-8'']) \<and>
   raises_uncaught (failing_batch ! 0) \<and>
   scan_source_files failing_batch = Inl OSError"
proof -
  have d: "distinct (map path batch)" by code_simp
  have n0: "\<not> raises_uncaught (batch ! 0)" by code_simp
  have n1: "\<not> raises_uncaught (batch ! 1)" by code_simp
  have n2: "\<not> raises_uncaught (batch ! 2)" by code_simp
  have len: "length batch = 3" by code_simp
  have none: "\<forall>sf\<in>set batch. \<not> raises_uncaught sf"
  proof
    fix sf assume "sf \<in> set batch"
    then obtain k where "k < 3" "sf = batch ! k"
      unfolding in_set_conv_nth len by blast
    then have "k = 0 \<or> k = 1 \<or> k = 2" by auto
    with n0 n1 n2 \<open>sf = batch ! k\<close> show "\<not> raises_uncaught sf" by blast
  qed
  have w: "map decode_warning (filter is_undecodable batch) =
      [''Warning: Could not read src/bad.zig as UTF-8'']" by code_simp
  have rd: "filter is_readable batch = [batch ! 2]" by code_simp
  have p: "process_source_file (batch ! 2) = Inr (Some example_info, [])" by code_simp
  have pth: "path (batch ! 2) = ''src/a.zig''" by code_simp
  have r0: "raises_uncaught (failing_batch ! 0)" by code_simp
  have mem: "failing_batch ! 0 \<in> set failing_batch" by code_simp
  have ev: "scan_source_files failing_batch = Inl OSError" by code_simp
  from decode_errors_are_skipped_with_a_warning [of batch] d none
  obtain api_docs where
    a: "scan_source_files batch = Inr (api_docs, map decode_warning (filter is_undecodable batch))"
    and l: "list_all2 stored_for api_docs (filter is_readable batch)"
    by blast
  from l rd obtain entry where en: "api_docs = [entry]" "stored_for entry (batch ! 2)"
    by (auto simp: list_all2_Cons2)
  with p pth have "entry = (''src/a.zig'', example_info)"
    by (cases entry) (simp add: stored_for_def)
  with a w en have ok: "scan_source_files batch =
     Inr ([(''src/a.zig'', example_info)], [''Warning: Could not read src/bad.zig as UTF-8''])"
    by simp
  from decode_errors_are_skipped_with_a_warning [of failing_batch] r0 mem
  have "\<exists>e. scan_source_files failing_batch = Inl e" by blast
  with d n0 n1 n2 ok r0 ev show ?thesis by blast
qed

text \<open>
  C2 (as stated) fails for an I/O error: the first file of the batch raises \<open>OSError\<close>,
  the second is readable, and the scan ends with the exception.
\<close>

theorem io_error_is_fatal_counterexample:
  "is_file (failing_batch ! 0) \<and> contents (failing_batch ! 0) = Raises OSError \<and>
   is_readable (failing_batch ! 1) \<and>
   scan_source_files failing_batch = Inl OSError"
  by code_simp


section \<open>The API reference\<close>

lemma foldl_appending:
  assumes "\<And>m x. step m x = m @ step [] x"
  shows "foldl step m xs = m @ concat (map (step []) xs)"
proof (induction xs arbitrary: m)
  case Nil
  show ?case by simp
next
  case (Cons x xs)
  have "foldl step (step m x) xs = step m x @ concat (map (step []) xs)"
    by (rule Cons.IH)
  also have "\<dots> = m @ step [] x @ concat (map (step []) xs)"
    using assms [of m x] by simp
  finally show ?case by simp
qed

lemma module_doc_step_appends: "module_doc_step m d = m @ module_doc_step [] d"
  by (simp add: module_doc_step_def)

lemma type_step_appends: "type_step m t = m @ type_step [] t"
  by (simp add: type_step_def Let_def)

lemma function_step_appends: "function_step m f = m @ function_step [] f"
  by (simp add: function_step_def Let_def)

lemma file_step_appends: "file_step m fi = m @ file_step [] fi"
  unfolding file_step_def Let_def
  by (simp add: foldl_appending [OF module_doc_step_appends]
      foldl_appending [OF type_step_appends] foldl_appending [OF function_step_appends])

text \<open>
  C9. The rendered reference is a function of the file records alone: two dicts with the
  same records in the same order, under whatever keys, render to the same text, which is the
  fixed header followed by one block for each record, each computed from that record and
  nothing else. The renderer takes no clock, and what it returns holds no timestamp.
\<close>

theorem api_reference_depends_on_records_only:
  "(map snd api_docs = map snd api_docs' \<longrightarrow>
      generate_api_reference api_docs = generate_api_reference api_docs') \<and>
   generate_api_reference api_docs =
     api_reference_header @ concat (map (file_step []) (map snd api_docs))"
  by (simp add: generate_api_reference_def foldl_appending [OF file_step_appends])

theorem api_reference_depends_on_records_only_witness:
  "map snd [(''/tmp/run1/src/a.zig'', example_info)] = map snd [(''/home/ci/src/a.zig'', example_info)] \<and>
   generate_api_reference [(''/tmp/run1/src/a.zig'', example_info)] =
   generate_api_reference [(''/home/ci/src/a.zig'', example_info)]"
proof -
  have h: "map snd [(''/tmp/run1/src/a.zig'', example_info)] =
      map snd [(''/home/ci/src/a.zig'', example_info)]" by simp
  with api_reference_depends_on_records_only
    [of "[(''/tmp/run1/src/a.zig'', example_info)]" "[(''/home/ci/src/a.zig'', example_info)]"]
  have "generate_api_reference [(''/tmp/run1/src/a.zig'', example_info)] =
   generate_api_reference [(''/home/ci/src/a.zig'', example_info)]" by blast
  with h show ?thesis by blast
qed

section \<open>The book\<close>

lemma chapter_section_pair:
  "chapter_section docs_dir (i, filename, title) =
     ''# '' @ str_int i @ ''. '' @ title @ [nl, nl] @
     chapter_body filename (docs_dir filename) @ [nl, nl] @ ''---'' @ [nl, nl]"
  by (simp add: chapter_section_def)

lemma chapter_loop_ok:
  "\<forall>e\<in>set es. \<not> is_unreadable (docs_dir (fst (snd e))) \<Longrightarrow>
   chapter_loop docs_dir es f = Inr (f @ concat (map (chapter_section docs_dir) es))"
proof (induction es arbitrary: f)
  case Nil
  show ?case by simp
next
  case (Cons e es)
  obtain i filename title where e: "e = (i, filename, title)" by (cases e)
  have ih: "\<And>f. chapter_loop docs_dir es f = Inr (f @ concat (map (chapter_section docs_dir) es))"
    using Cons by simp
  from Cons.prems e have "\<not> is_unreadable (docs_dir filename)" by simp
  then show ?case
    unfolding e
    by (cases "docs_dir filename") (simp_all add: ih chapter_section_pair is_unreadable_def Let_def)
qed

lemma chapter_loop_fails:
  "\<exists>e\<in>set es. is_unreadable (docs_dir (fst (snd e))) \<Longrightarrow> \<exists>err. chapter_loop docs_dir es f = Inl err"
proof (induction es arbitrary: f)
  case Nil
  then show ?case by simp
next
  case (Cons e es)
  obtain i filename title where e: "e = (i, filename, title)" by (cases e)
  show ?case
  proof (cases "docs_dir filename")
    case Missing
    with Cons.prems e have "\<exists>e\<in>set es. is_unreadable (docs_dir (fst (snd e)))"
      by (simp add: is_unreadable_def)
    from Cons.IH [OF this] Missing show ?thesis unfolding e by simp
  next
    case (Readable c)
    with Cons.prems e have "\<exists>e\<in>set es. is_unreadable (docs_dir (fst (snd e)))"
      by (simp add: is_unreadable_def)
    from Cons.IH [OF this] Readable show ?thesis unfolding e by (simp add: Let_def)
  next
    case (Unreadable err)
    then show ?thesis unfolding e by simp
  qed
qed

lemma chapter_loop_Inr:
  assumes "chapter_loop docs_dir es f = Inr out"
  shows "out = f @ concat (map (chapter_section docs_dir) es)"
    and "\<forall>e\<in>set es. \<not> is_unreadable (docs_dir (fst (snd e)))"
proof -
  show u: "\<forall>e\<in>set es. \<not> is_unreadable (docs_dir (fst (snd e)))"
    using chapter_loop_fails [of es docs_dir f] assms by auto
  from chapter_loop_ok [OF u, of f] assms
  show "out = f @ concat (map (chapter_section docs_dir) es)" by simp
qed

lemma generate_combined_markdown_loop:
  "generate_combined_markdown timestamp docs_dir chs =
     chapter_loop docs_dir (enumerate_from 1 chs) (book_front timestamp chs)"
  by (simp add: generate_combined_markdown_def book_front_def Let_def)

lemma enumerate_from_names:
  "e \<in> set (enumerate_from n chs) \<Longrightarrow> snd e \<in> set chs"
  by (auto simp: enumerate_from_set)

lemma unreadable_entry:
  assumes "c \<in> set chs" and "is_unreadable (docs_dir (fst c))"
  shows "\<exists>e\<in>set (enumerate_from n chs). is_unreadable (docs_dir (fst (snd e)))"
proof -
  from assms(1) obtain k where "k < length chs" "chs ! k = c"
    unfolding in_set_conv_nth by blast
  then have "(n + int k, c) \<in> set (enumerate_from n chs)"
    unfolding enumerate_from_set by auto
  with assms(2) show ?thesis by force
qed

text \<open>
  C5 (as amended). For every state of the directory in which each chapter that exists can be
  read, whatever chapters are missing, the assembly returns; a missing chapter never makes
  it fail. The book it returns is the front matter (header and table of contents) followed
  by exactly one section for each registry entry, in registry order. The section of a
  missing chapter is its numbered heading, the notice \<open>*Chapter not found: filename*\<close>
  and the separator. When a chapter exists and reading it raises, the exception leaves the
  assembler and no book is returned.
\<close>

theorem readable_chapters_give_one_section_per_entry:
  "((\<forall>c\<in>set chs. \<not> is_unreadable (docs_dir (fst c))) \<longrightarrow>
      (\<exists>out. generate_combined_markdown timestamp docs_dir chs = Inr out)) \<and>
   (generate_combined_markdown timestamp docs_dir chs = Inr out \<longrightarrow>
      out = book_front timestamp chs @
            concat (map (chapter_section docs_dir) (enumerate_from 1 chs)) \<and>
      length (map (chapter_section docs_dir) (enumerate_from 1 chs)) = length chs) \<and>
   (docs_dir filename = Missing \<longrightarrow>
      chapter_section docs_dir (i, filename, title) =
        ''# '' @ str_int i @ ''. '' @ title @ [nl, nl] @
        ''*Chapter not found: '' @ filename @ ''*'' @ [nl, nl] @ ''---'' @ [nl, nl]) \<and>
   ((\<exists>c\<in>set chs. is_unreadable (docs_dir (fst c))) \<longrightarrow>
      (\<exists>e. generate_combined_markdown timestamp docs_dir chs = Inl e))"
proof -
  have a: "\<exists>out. generate_combined_markdown timestamp docs_dir chs = Inr out"
    if "\<forall>c\<in>set chs. \<not> is_unreadable (docs_dir (fst c))"
  proof -
    from that have "\<forall>e\<in>set (enumerate_from 1 chs). \<not> is_unreadable (docs_dir (fst (snd e)))"
      using enumerate_from_names by blast
    from chapter_loop_ok [OF this] show ?thesis
      by (simp add: generate_combined_markdown_loop)
  qed
  have b: "out = book_front timestamp chs @
            concat (map (chapter_section docs_dir) (enumerate_from 1 chs))"
    if "generate_combined_markdown timestamp docs_dir chs = Inr out"
    using that chapter_loop_Inr(1) by (simp add: generate_combined_markdown_loop)
  have c: "chapter_section docs_dir (i, filename, title) =
        ''# '' @ str_int i @ ''. '' @ title @ [nl, nl] @
        ''*Chapter not found: '' @ filename @ ''*'' @ [nl, nl] @ ''---'' @ [nl, nl]"
    if "docs_dir filename = Missing"
    using that by (simp add: chapter_section_pair)
  have d: "\<exists>e. generate_combined_markdown timestamp docs_dir chs = Inl e"
    if "\<exists>c\<in>set chs. is_unreadable (docs_dir (fst c))"
  proof -
    from that unreadable_entry [of _ chs docs_dir 1]
    have "\<exists>e\<in>set (enumerate_from 1 chs). is_unreadable (docs_dir (fst (snd e)))" by blast
    from chapter_loop_fails [OF this] show ?thesis
      by (simp add: generate_combined_markdown_loop)
  qed
  from a b c d show ?thesis by simp
qed

theorem readable_chapters_give_one_section_per_entry_witness:
  "\<not> is_unreadable (scenario_dir ''a.md'') \<and> \<not> is_unreadable (scenario_dir ''b.md'') \<and>
   scenario_dir ''b.md'' = Missing \<and>
   generate_combined_markdown ''2024-01-01 00:00:00'' scenario_dir scenario_chapters =
     Inr (book_front ''2024-01-01 00:00:00'' scenario_chapters @
          ''# 1. Intro\<newline>\<newline>Hello\<newline>\<newline>---\<newline>\<newline>'' @
          ''# 2. Setup\<newline>\<newline>*Chapter not found: b.md*\<newline>\<newline>---\<newline>\<newline>'') \<and>
   is_unreadable (unreadable_dir ''a.md'') \<and>
   generate_combined_markdown ''2024-01-01 00:00:00'' unreadable_dir scenario_chapters =
     Inl OSError"
proof -
  let ?ts = "''2024-01-01 00:00:00''"
  have ua: "\<not> is_unreadable (scenario_dir ''a.md'')" by code_simp
  have ub: "\<not> is_unreadable (scenario_dir ''b.md'')" by code_simp
  have mb: "scenario_dir ''b.md'' = Missing" by code_simp
  have un: "is_unreadable (unreadable_dir ''a.md'')" by code_simp
  have ev: "generate_combined_markdown ?ts unreadable_dir scenario_chapters = Inl OSError"
    by code_simp
  have "\<forall>c\<in>set scenario_chapters. \<not> is_unreadable (scenario_dir (fst c))"
    using ua ub by (simp add: scenario_chapters_def)
  with readable_chapters_give_one_section_per_entry [of scenario_chapters scenario_dir ?ts]
  obtain out where out: "generate_combined_markdown ?ts scenario_dir scenario_chapters = Inr out"
    by blast
  with readable_chapters_give_one_section_per_entry [of scenario_chapters scenario_dir ?ts out]
  have "out = book_front ?ts scenario_chapters @
      concat (map (chapter_section scenario_dir) (enumerate_from 1 scenario_chapters))"
    by blast
  moreover have "concat (map (chapter_section scenario_dir) (enumerate_from 1 scenario_chapters)) =
      ''# 1. Intro\<newline>\<newline>Hello\<newline>\<newline>---\<newline>\<newline>'' @
      ''# 2. Setup\<newline>\<newline>*Chapter not found: b.md*\<newline>\<newline>---\<newline>\<newline>''"
    by code_simp
  moreover have "\<exists>c\<in>set scenario_chapters. is_unreadable (unreadable_dir (fst c))"
    using un by (simp add: scenario_chapters_def)
  with readable_chapters_give_one_section_per_entry [of scenario_chapters unreadable_dir ?ts]
  have "\<exists>e. generate_combined_markdown ?ts unreadable_dir scenario_chapters = Inl e"
    by blast
  ultimately show ?thesis using out ua ub mb un ev by simp
qed

text \<open>
  C5 (as stated) fails for a state of the directory in which a chapter exists and cannot be
  read: \<open>exists()\<close> holds, reading raises, and the assembly ends with the exception.
\<close>

theorem unreadable_chapter_counterexample:
  "unreadable_dir ''a.md'' = Unreadable OSError \<and> unreadable_dir ''b.md'' = Missing \<and>
   generate_combined_markdown ''2024-01-01 00:00:00'' unreadable_dir scenario_chapters =
     Inl OSError"
  by code_simp

lemma enumerate_from_append:
  "enumerate_from n (xs @ ys) = enumerate_from n xs @ enumerate_from (n + int (length xs)) ys"
  by (induction xs arbitrary: n) (auto simp: algebra_simps)

lemma skip_first_header_line:
  "nl \<notin> set first \<Longrightarrow>
   skip_first_header (first @ nl # rest) = (if startswith first ''#'' then rest else first @ nl # rest)"
  by (simp add: skip_first_header_def split_append_sep join_split)

lemma skip_first_header_single:
  "nl \<notin> set content \<Longrightarrow>
   skip_first_header content = (if startswith content ''#'' then [] else content)"
  by (simp add: skip_first_header_def split_single)

lemma toc_step_appends: "toc_step f e = f @ toc_step [] e"
  by (simp add: toc_step_def split: prod.splits)

lemma book_front_header:
  "book_front timestamp chs =
     book_header timestamp @ ''## Table of Contents'' @ [nl, nl] @
     concat (map (toc_step []) (enumerate_from 1 chs)) @ [nl] @ ''---'' @ [nl, nl]"
  by (simp add: book_front_def foldl_appending [OF toc_step_appends])

text \<open>
  C7. In the book returned, the section of a chapter that exists is its numbered heading,
  then the chapter's content without its first line when that line starts with \<open>#\<close>
  and unchanged otherwise, then the separator; what stands before and after it is what the
  loop writes for the chapters before and after. A first line that starts with \<open>#\<close>
  is dropped with its newline, any other first line is kept. In the scenario of the
  specification (\<open>a.md\<close> holds \<open># A\<close> and \<open>Hello\<close>, \<open>b.md\<close> is missing) the
  first section holds \<open>Hello\<close> and not \<open># A\<close>.
\<close>

theorem existing_chapter_content_without_own_header:
  "(generate_combined_markdown timestamp docs_dir chs = Inr out \<and> k < length chs \<and>
    chs ! k = (filename, title) \<and> docs_dir filename = Readable content \<longrightarrow>
      (\<exists>pre post.
         out = pre @ ''# '' @ str_int (int k + 1) @ ''. '' @ title @ [nl, nl] @
               skip_first_header content @ [nl, nl] @ ''---'' @ [nl, nl] @ post \<and>
         chapter_loop docs_dir (enumerate_from 1 (take k chs)) (book_front timestamp chs) = Inr pre \<and>
         chapter_loop docs_dir (enumerate_from (int k + 2) (drop (Suc k) chs)) [] = Inr post)) \<and>
   (nl \<notin> set first \<longrightarrow>
      skip_first_header (first @ nl # rest) =
        (if startswith first ''#'' then rest else first @ nl # rest)) \<and>
   (nl \<notin> set single \<longrightarrow>
      skip_first_header single = (if startswith single ''#'' then [] else single)) \<and>
   generate_combined_markdown timestamp scenario_dir scenario_chapters =
     Inr (book_header timestamp @
          ''## Table of Contents\<newline>\<newline>1. [Intro](#intro)\<newline>2. [Setup](#setup)\<newline>\<newline>---\<newline>\<newline>'' @
          ''# 1. Intro\<newline>\<newline>Hello\<newline>\<newline>---\<newline>\<newline>'' @
          ''# 2. Setup\<newline>\<newline>*Chapter not found: b.md*\<newline>\<newline>---\<newline>\<newline>'')"
proof -
  have place: "\<exists>pre post.
         out = pre @ ''# '' @ str_int (int k + 1) @ ''. '' @ title @ [nl, nl] @
               skip_first_header content @ [nl, nl] @ ''---'' @ [nl, nl] @ post \<and>
         chapter_loop docs_dir (enumerate_from 1 (take k chs)) (book_front timestamp chs) = Inr pre \<and>
         chapter_loop docs_dir (enumerate_from (int k + 2) (drop (Suc k) chs)) [] = Inr post"
    if g: "generate_combined_markdown timestamp docs_dir chs = Inr out" and k: "k < length chs"
      and ch: "chs ! k = (filename, title)" and rd: "docs_dir filename = Readable content"
  proof -
    let ?before = "enumerate_from 1 (take k chs)"
    let ?after = "enumerate_from (int k + 2) (drop (Suc k) chs)"
    let ?sec = "chapter_section docs_dir"
    have "chs = take k chs @ (filename, title) # drop (Suc k) chs"
      using k ch id_take_nth_drop [of k chs] by simp
    then have "enumerate_from 1 chs =
        enumerate_from 1 (take k chs @ (filename, title) # drop (Suc k) chs)" by simp
    also have "\<dots> = ?before @ (int k + 1, filename, title) # ?after"
      using k by (simp add: enumerate_from_append min_def algebra_simps)
    finally have en: "enumerate_from 1 chs = ?before @ (int k + 1, filename, title) # ?after" .
    from g have loop: "chapter_loop docs_dir (enumerate_from 1 chs) (book_front timestamp chs) = Inr out"
      by (simp add: generate_combined_markdown_loop)
    from chapter_loop_Inr [OF loop] have
      out: "out = book_front timestamp chs @ concat (map ?sec (enumerate_from 1 chs))"
      and un: "\<forall>e\<in>set (enumerate_from 1 chs). \<not> is_unreadable (docs_dir (fst (snd e)))"
      by simp_all
    from un en have ub: "\<forall>e\<in>set ?before. \<not> is_unreadable (docs_dir (fst (snd e)))"
      and ua: "\<forall>e\<in>set ?after. \<not> is_unreadable (docs_dir (fst (snd e)))"
      by simp_all
    let ?pre = "book_front timestamp chs @ concat (map ?sec ?before)"
    let ?post = "concat (map ?sec ?after)"
    have "out = ?pre @ ''# '' @ str_int (int k + 1) @ ''. '' @ title @ [nl, nl] @
               skip_first_header content @ [nl, nl] @ ''---'' @ [nl, nl] @ ?post"
      unfolding out en using rd by (simp add: chapter_section_pair)
    moreover have "chapter_loop docs_dir ?before (book_front timestamp chs) = Inr ?pre"
      by (rule chapter_loop_ok [OF ub])
    moreover have "chapter_loop docs_dir ?after [] = Inr ?post"
      using chapter_loop_ok [OF ua, of "[]"] by simp
    ultimately show ?thesis by blast
  qed
  have toc: "concat (map (toc_step []) (enumerate_from 1 scenario_chapters)) =
      ''1. [Intro](#intro)\<newline>2. [Setup](#setup)\<newline>''"
    by code_simp
  have secs: "concat (map (chapter_section scenario_dir) (enumerate_from 1 scenario_chapters)) =
      ''# 1. Intro\<newline>\<newline>Hello\<newline>\<newline>---\<newline>\<newline>'' @
      ''# 2. Setup\<newline>\<newline>*Chapter not found: b.md*\<newline>\<newline>---\<newline>\<newline>''"
    by code_simp
  have "\<forall>e\<in>set (enumerate_from 1 scenario_chapters). \<not> is_unreadable (scenario_dir (fst (snd e)))"
    by (simp add: scenario_dir_def is_unreadable_def)
  from chapter_loop_ok [OF this, of "book_front timestamp scenario_chapters"]
  have scen: "generate_combined_markdown timestamp scenario_dir scenario_chapters =
     Inr (book_header timestamp @
          ''## Table of Contents\<newline>\<newline>1. [Intro](#intro)\<newline>2. [Setup](#setup)\<newline>\<newline>---\<newline>\<newline>'' @
          ''# 1. Intro\<newline>\<newline>Hello\<newline>\<newline>---\<newline>\<newline>'' @
          ''# 2. Setup\<newline>\<newline>*Chapter not found: b.md*\<newline>\<newline>---\<newline>\<newline>'')"
    unfolding generate_combined_markdown_loop secs
    by (simp add: book_front_header toc nl_def)
  from place skip_first_header_line skip_first_header_single scen show ?thesis by blast
qed

theorem existing_chapter_content_without_own_header_witness:
  "0 < length scenario_chapters \<and> scenario_chapters ! 0 = (''a.md'', ''Intro'') \<and>
   scenario_dir ''a.md'' = Readable (''# A'' @ nl # ''Hello'') \<and>
   nl \<notin> set ''# A'' \<and> startswith ''# A'' ''#'' \<and>
   skip_first_header (''# A'' @ nl # ''Hello'') = ''Hello'' \<and>
   skip_first_header ''# A'' = [] \<and>
   (\<exists>out pre post.
      generate_combined_markdown ''2024-01-01 00:00:00'' scenario_dir scenario_chapters = Inr out \<and>
      out = pre @ ''# '' @ str_int (int 0 + 1) @ ''. '' @ ''Intro'' @ [nl, nl] @
            ''Hello'' @ [nl, nl] @ ''---'' @ [nl, nl] @ post)"
proof -
  let ?ts = "''2024-01-01 00:00:00''"
  let ?out = "book_header ?ts @
          ''## Table of Contents\<newline>\<newline>1. [Intro](#intro)\<newline>2. [Setup](#setup)\<newline>\<newline>---\<newline>\<newline>'' @
          ''# 1. Intro\<newline>\<newline>Hello\<newline>\<newline>---\<newline>\<newline>'' @
          ''# 2. Setup\<newline>\<newline>*Chapter not found: b.md*\<newline>\<newline>---\<newline>\<newline>''"
  note inst = existing_chapter_content_without_own_header
    [of ?ts scenario_dir scenario_chapters ?out 0 "''a.md''" "''Intro''"
        "''# A'' @ nl # ''Hello''" "''# A''" "''Hello''" "''# A''"]
  have len: "0 < length scenario_chapters" by code_simp
  have ch: "scenario_chapters ! 0 = (''a.md'', ''Intro'')" by code_simp
  have rd: "scenario_dir ''a.md'' = Readable (''# A'' @ nl # ''Hello'')" by code_simp
  have nonl: "nl \<notin> set ''# A''" by code_simp
  have st: "startswith ''# A'' ''#''" by code_simp
  from inst have g: "generate_combined_markdown ?ts scenario_dir scenario_chapters = Inr ?out"
    by blast
  from inst nonl st have s1: "skip_first_header (''# A'' @ nl # ''Hello'') = ''Hello''"
    by simp
  from inst nonl st have s2: "skip_first_header ''# A'' = []"
    by simp
  from inst g len ch rd obtain pre post where
    "?out = pre @ ''# '' @ str_int (int 0 + 1) @ ''. '' @ ''Intro'' @ [nl, nl] @
          skip_first_header (''# A'' @ nl # ''Hello'') @ [nl, nl] @ ''---'' @ [nl, nl] @ post"
    by blast
  with s1 g have "\<exists>out pre post.
      generate_combined_markdown ?ts scenario_dir scenario_chapters = Inr out \<and>
      out = pre @ ''# '' @ str_int (int 0 + 1) @ ''. '' @ ''Intro'' @ [nl, nl] @
            ''Hello'' @ [nl, nl] @ ''---'' @ [nl, nl] @ post"
    by metis
  with len ch rd nonl st s1 s2 show ?thesis by blast
qed


end
